theory Spec2Isabelle
  imports Main "HOL-Library.Word" "HOL-Library.Sublist"
begin

unbundle bit_operations_syntax

chapter \<open>cs-nades: accounts, bookmarks, submission intake and moderation\<close>

text \<open>
  A shallow embedding of the request handlers of the cs-nades site and of the two pure
  helpers they rest on (\<open>hashNickname\<close>, \<open>seededShuffle\<close>). The relational store and
  the filesystem are an explicit state that every handler takes and returns; a thrown
  exception is an outcome of its own, next to a sent response.

  What the embedding covers. A handler runs on its own from request to response,
  with no other request in between. Strings are sequences of code units below 256.
  The numbers of a JSON body are the integer-valued ones, and a body field holds a
  scalar or is absent. The time of a request (\<open>unixepoch()\<close>) and the working directory
  of the process are parameters of the handlers, and so are two rules of the platform
  that the handlers only call: the URL parser, and the store's comparison of a text value
  with an integer key. A filesystem call fails for the reasons written in its
  definition and for no other.
\<close>

section \<open>JavaScript values\<close>

text \<open>
  The JSON values a request body can carry for a field. \<open>JUndefined\<close> is a field that is
  absent from the body. Numbers are the integer-valued ones; fractions, arrays and objects
  are not modelled. \<open>JNum n\<close> stands for the number whose value is the integer \<open>n\<close>.
\<close>

datatype jsval = JUndefined | JNull | JBool bool | JNum int | JStr string

text \<open>Truthiness, as \<open>!x\<close> and \<open>if (x)\<close> read it.\<close>

fun truthy :: "jsval \<Rightarrow> bool" where
  "truthy JUndefined = False"
| "truthy JNull = False"
| "truthy (JBool b) = b"
| "truthy (JNum n) = (n \<noteq> 0)"
| "truthy (JStr s) = (s \<noteq> [])"

text \<open>A string that may be \<open>null\<close> (\<open>formData.get\<close>, an optional body field).\<close>

definition truthy_str :: "string option \<Rightarrow> bool" where
  "truthy_str s = (case s of None \<Rightarrow> False | Some t \<Rightarrow> t \<noteq> [])"

function decimal :: "nat \<Rightarrow> string" where
  "decimal n = (if n < 10 then [''0123456789'' ! n] else decimal (n div 10) @ [''0123456789'' ! (n mod 10)])"
  by pat_completeness auto
termination
  by (relation "measure id") auto

declare decimal.simps [simp del]

text \<open>
  \<open>String(x)\<close>. For a number this is its decimal numeral, which is what JavaScript prints
  for an integer of magnitude below \<open>10^21\<close>. From \<open>10^21\<close> on JavaScript prints the
  exponent form (\<open>1e+21\<close>), which this function does not give: what is proved below about
  the string of a number taken from a request is proved for magnitudes below \<open>10^21\<close>.
\<close>

fun js_String :: "jsval \<Rightarrow> string" where
  "js_String JUndefined = ''undefined''"
| "js_String JNull = ''null''"
| "js_String (JBool b) = (if b then ''true'' else ''false'')"
| "js_String (JNum n) = (if n < 0 then CHR ''-'' # decimal (nat (- n)) else decimal (nat n))"
| "js_String (JStr s) = s"

section \<open>Strings: trim and toLowerCase\<close>

text \<open>
  A \<open>char\<close> stands for one UTF-16 code unit below 256, so the strings covered are those
  of the Latin-1 range. Within that range \<open>trim\<close> removes tab, line feed, vertical tab,
  form feed, carriage return, space and no-break space, and \<open>toLowerCase\<close> maps
  \<open>A\<close>--\<open>Z\<close> and the accented capitals \<open>U+00C0\<close>--\<open>U+00DE\<close> (but not the
  multiplication sign \<open>U+00D7\<close>) to the letter 32 positions up.
\<close>

definition is_space :: "char \<Rightarrow> bool" where
  "is_space c = ((of_char c :: nat) \<in> {9, 10, 11, 12, 13, 32, 160})"

definition trim :: "string \<Rightarrow> string" where
  "trim s = rev (dropWhile is_space (rev (dropWhile is_space s)))"

definition lower_char :: "char \<Rightarrow> char" where
  "lower_char c =
     (let n = (of_char c :: nat)
      in if (65 \<le> n \<and> n \<le> 90) \<or> (192 \<le> n \<and> n \<le> 222 \<and> n \<noteq> 215)
         then char_of (n + 32) else c)"

definition toLowerCase :: "string \<Rightarrow> string" where
  "toLowerCase s = map lower_char s"

section \<open>SHA-256 and hashNickname\<close>

type_synonym byte = "8 word"
type_synonym w32 = "32 word"
type_synonym hash_state = "w32 \<times> w32 \<times> w32 \<times> w32 \<times> w32 \<times> w32 \<times> w32 \<times> w32"

text \<open>\<open>createHash('sha256')\<close>: the digest of FIPS 180-4, on the UTF-8 bytes of the string.\<close>

definition sha256_K :: "w32 list" where
  "sha256_K =
     [0x428a2f98, 0x71374491, 0xb5c0fbcf, 0xe9b5dba5,
      0x3956c25b, 0x59f111f1, 0x923f82a4, 0xab1c5ed5] @
     [0xd807aa98, 0x12835b01, 0x243185be, 0x550c7dc3,
      0x72be5d74, 0x80deb1fe, 0x9bdc06a7, 0xc19bf174] @
     [0xe49b69c1, 0xefbe4786, 0x0fc19dc6, 0x240ca1cc,
      0x2de92c6f, 0x4a7484aa, 0x5cb0a9dc, 0x76f988da] @
     [0x983e5152, 0xa831c66d, 0xb00327c8, 0xbf597fc7,
      0xc6e00bf3, 0xd5a79147, 0x06ca6351, 0x14292967] @
     [0x27b70a85, 0x2e1b2138, 0x4d2c6dfc, 0x53380d13,
      0x650a7354, 0x766a0abb, 0x81c2c92e, 0x92722c85] @
     [0xa2bfe8a1, 0xa81a664b, 0xc24b8b70, 0xc76c51a3,
      0xd192e819, 0xd6990624, 0xf40e3585, 0x106aa070] @
     [0x19a4c116, 0x1e376c08, 0x2748774c, 0x34b0bcb5,
      0x391c0cb3, 0x4ed8aa4a, 0x5b9cca4f, 0x682e6ff3] @
     [0x748f82ee, 0x78a5636f, 0x84c87814, 0x8cc70208,
      0x90befffa, 0xa4506ceb, 0xbef9a3f7, 0xc67178f2]"

definition sha256_H0 :: hash_state where
  "sha256_H0 =
    (0x6a09e667, 0xbb67ae85, 0x3c6ef372, 0xa54ff53a,
     0x510e527f, 0x9b05688c, 0x1f83d9ab, 0x5be0cd19)"

definition ch :: "w32 \<Rightarrow> w32 \<Rightarrow> w32 \<Rightarrow> w32" where
  "ch x y z = (x AND y) XOR (NOT x AND z)"

definition maj :: "w32 \<Rightarrow> w32 \<Rightarrow> w32 \<Rightarrow> w32" where
  "maj x y z = (x AND y) XOR (x AND z) XOR (y AND z)"

definition big_sigma0 :: "w32 \<Rightarrow> w32" where
  "big_sigma0 x = word_rotr 2 x XOR word_rotr 13 x XOR word_rotr 22 x"

definition big_sigma1 :: "w32 \<Rightarrow> w32" where
  "big_sigma1 x = word_rotr 6 x XOR word_rotr 11 x XOR word_rotr 25 x"

definition small_sigma0 :: "w32 \<Rightarrow> w32" where
  "small_sigma0 x = word_rotr 7 x XOR word_rotr 18 x XOR drop_bit 3 x"

definition small_sigma1 :: "w32 \<Rightarrow> w32" where
  "small_sigma1 x = word_rotr 17 x XOR word_rotr 19 x XOR drop_bit 10 x"

text \<open>The message length in bits, as eight bytes, most significant first.\<close>

definition length_bytes :: "nat \<Rightarrow> byte list" where
  "length_bytes n =
     map (\<lambda>i. ucast (drop_bit (8 * i) (word_of_nat (8 * n) :: 64 word))) [7, 6, 5, 4, 3, 2, 1, 0]"

definition sha256_pad :: "byte list \<Rightarrow> byte list" where
  "sha256_pad m =
     m @ [0x80] @ replicate ((119 - length m mod 64) mod 64) 0 @ length_bytes (length m)"

function blocks64 :: "byte list \<Rightarrow> byte list list" where
  "blocks64 bs = (if bs = [] then [] else take 64 bs # blocks64 (drop 64 bs))"
  by pat_completeness auto
termination
  by (relation "measure length") auto

declare blocks64.simps [simp del]

definition be32 :: "byte list \<Rightarrow> w32" where
  "be32 bs = foldl (\<lambda>acc b. push_bit 8 acc OR ucast b) 0 bs"

definition block_words :: "byte list \<Rightarrow> w32 list" where
  "block_words blk = map (\<lambda>i. be32 (take 4 (drop (4 * i) blk))) [0..<16]"

fun extend_schedule :: "nat \<Rightarrow> w32 list \<Rightarrow> w32 list" where
  "extend_schedule 0 w = w"
| "extend_schedule (Suc n) w =
     (let t = length w
      in extend_schedule n
           (w @ [small_sigma1 (w ! (t - 2)) + w ! (t - 7)
                 + small_sigma0 (w ! (t - 15)) + w ! (t - 16)]))"

fun sha256_round :: "hash_state \<Rightarrow> w32 \<times> w32 \<Rightarrow> hash_state" where
  "sha256_round (a, b, c, d, e, f, g, h) (k, w) =
     (let t1 = h + big_sigma1 e + ch e f g + k + w;
          t2 = big_sigma0 a + maj a b c
      in (t1 + t2, a, b, c, d + t1, e, f, g))"

fun add_state :: "hash_state \<Rightarrow> hash_state \<Rightarrow> hash_state" where
  "add_state (a, b, c, d, e, f, g, h) (a', b', c', d', e', f', g', h') =
     (a + a', b + b', c + c', d + d', e + e', f + f', g + g', h + h')"

definition sha256_compress :: "hash_state \<Rightarrow> byte list \<Rightarrow> hash_state" where
  "sha256_compress H blk =
     add_state H (foldl sha256_round H (zip sha256_K (extend_schedule 48 (block_words blk))))"

definition sha256 :: "byte list \<Rightarrow> hash_state" where
  "sha256 m = foldl sha256_compress sha256_H0 (blocks64 (sha256_pad m))"

definition hex_digit :: "nat \<Rightarrow> char" where
  "hex_digit n = ''0123456789abcdef'' ! n"

definition hex32 :: "w32 \<Rightarrow> string" where
  "hex32 w = map (\<lambda>i. hex_digit (unat (drop_bit (4 * i) w AND 0xF))) [7, 6, 5, 4, 3, 2, 1, 0]"

definition hex_chars :: "char set" where
  "hex_chars = set ''0123456789abcdef''"

text \<open>\<open>digest('hex')\<close>: the eight state words, each as eight lowercase hexadecimal digits.\<close>

fun digest_hex :: "hash_state \<Rightarrow> string" where
  "digest_hex (a, b, c, d, e, f, g, h) = concat (map hex32 [a, b, c, d, e, f, g, h])"

text \<open>The UTF-8 bytes of a string of code units below 256: one byte below 128, else two.\<close>

definition utf8 :: "string \<Rightarrow> byte list" where
  "utf8 s =
     concat (map (\<lambda>c. let n = (of_char c :: nat)
                       in if n < 128 then [word_of_nat n]
                          else [word_of_nat (192 + n div 64), word_of_nat (128 + n mod 64)]) s)"

text \<open>
  \<^verbatim>\<open>createHash('sha256').update(nickname.trim().toLowerCase()).digest('hex')\<close>
\<close>

definition hashNickname :: "string \<Rightarrow> string" where
  "hashNickname nickname = digest_hex (sha256 (utf8 (toLowerCase (trim nickname))))"

section \<open>seededShuffle\<close>

text \<open>
  JavaScript numbers are IEEE-754 doubles. On integers the arithmetic is exact integer
  arithmetic followed by rounding to the nearest double, ties to the even significand:
  a magnitude of \<open>b\<close> bits keeps its top 53 bits, so it is rounded to a multiple of
  \<open>2 ^ (b - 53)\<close>. The numbers met here stay far below the overflow threshold.
\<close>

function bit_length :: "int \<Rightarrow> nat" where
  "bit_length m = (if m \<le> 0 then 0 else Suc (bit_length (m div 2)))"
  by pat_completeness auto
termination
  by (relation "measure nat") auto

declare bit_length.simps [simp del]

definition round_to_double :: "int \<Rightarrow> int" where
  "round_to_double x =
     (let m = \<bar>x\<bar>;
          u = 2 ^ (bit_length m - 53);
          q = m div u;
          r = m mod u;
          q' = (if 2 * r < u then q
                else if 2 * r > u then q + 1
                else if even q then q else q + 1)
      in sgn x * (q' * u))"

definition js_mul :: "int \<Rightarrow> int \<Rightarrow> int" where
  "js_mul a b = round_to_double (a * b)"

definition js_add :: "int \<Rightarrow> int \<Rightarrow> int" where
  "js_add a b = round_to_double (a + b)"

text \<open>\<open>ToInt32\<close>, the conversion the operator \<open>&\<close> applies to its operands.\<close>

definition to_int32 :: "int \<Rightarrow> 32 word" where
  "to_int32 x = word_of_int x"

text \<open>\<^verbatim>\<open>s = (s * 1103515245 + 12345) & 0x7fffffff\<close>\<close>

definition next_seed :: "int \<Rightarrow> int" where
  "next_seed s = sint (to_int32 (js_add (js_mul s 1103515245) 12345) AND 0x7fffffff)"

text \<open>\<^verbatim>\<open>[result[i], result[j]] = [result[j], result[i]]\<close>\<close>

definition swap :: "'a list \<Rightarrow> nat \<Rightarrow> nat \<Rightarrow> 'a list" where
  "swap xs i j = xs[i := xs ! j, j := xs ! i]"

text \<open>The loop \<open>for (let i = result.length - 1; i > 0; i--)\<close>, entered with the index \<open>i\<close>.\<close>

fun shuffle_loop :: "nat \<Rightarrow> int \<Rightarrow> 'a list \<Rightarrow> 'a list" where
  "shuffle_loop 0 s result = result"
| "shuffle_loop (Suc i) s result =
     (let s' = next_seed s;
          j = nat (s' mod (int (Suc i) + 1))
      in shuffle_loop i s' (swap result (Suc i) j))"

definition seededShuffle :: "'a list \<Rightarrow> int \<Rightarrow> 'a list" where
  "seededShuffle arr seed = shuffle_loop (length arr - 1) seed arr"

text \<open>
  The reference of the specification, in exact integers:
  \<open>seed = (seed * 1103515245 + 12345) mod 2^31\<close>, \<open>j = seed mod (i + 1)\<close>, Fisher--Yates
  from the end.
\<close>

definition exact_next_seed :: "int \<Rightarrow> int" where
  "exact_next_seed s = (s * 1103515245 + 12345) mod 2 ^ 31"

fun exact_loop :: "nat \<Rightarrow> int \<Rightarrow> 'a list \<Rightarrow> 'a list" where
  "exact_loop 0 s result = result"
| "exact_loop (Suc i) s result =
     (let s' = exact_next_seed s;
          j = nat (s' mod (int (Suc i) + 1))
      in exact_loop i s' (swap result (Suc i) j))"

definition exact_shuffle :: "'a list \<Rightarrow> int \<Rightarrow> 'a list" where
  "exact_shuffle arr seed = exact_loop (length arr - 1) seed arr"

section \<open>Paths and the filesystem\<close>

text \<open>
  A path is the list of its segments below the root; \<open>process.cwd()\<close> is such a list.
  \<open>path.join\<close> concatenates its arguments with \<open>/\<close> and normalises: an empty segment
  and \<open>.\<close> are dropped, \<open>..\<close> removes the segment before it (and nothing at the root).
\<close>

type_synonym path = "string list"

fun segments :: "string \<Rightarrow> string list" where
  "segments [] = [[]]"
| "segments (c # cs) =
     (if c = CHR ''/'' then [] # segments cs
      else (case segments cs of [] \<Rightarrow> [[c]] | s # ss \<Rightarrow> (c # s) # ss))"

definition walk :: "path \<Rightarrow> string \<Rightarrow> path" where
  "walk p seg =
     (if seg = [] \<or> seg = ''.'' then p else if seg = ''..'' then butlast p else p @ [seg])"

definition join :: "path \<Rightarrow> string list \<Rightarrow> path" where
  "join base parts = foldl walk base (concat (map segments parts))"

datatype node = Directory | Regular string

type_synonym filesystem = "path \<Rightarrow> node option"

text \<open>
  A path that the platform takes: no name holds the character NUL (the call refuses such
  a string), no name is longer than 255 bytes and the whole path, with a separator before
  each name, is shorter than 4096 bytes (beyond that the call fails with
  \<open>ENAMETOOLONG\<close>).
\<close>

definition path_accepted :: "path \<Rightarrow> bool" where
  "path_accepted p =
     (list_all (\<lambda>seg. CHR 0x00 \<notin> set seg \<and> length (utf8 seg) \<le> 255) p
      \<and> sum_list (map (\<lambda>seg. Suc (length (utf8 seg))) p) < 4096)"

text \<open>
  \<^verbatim>\<open>rm(p, { recursive: true, force: true })\<close>: the path and all below it go. \<open>force\<close>
  forgives a path that does not exist and nothing else: the call fails (\<open>None\<close>), before
  it removes anything, when the platform does not take the path or when a regular file
  stands above it (\<open>ENOTDIR\<close>). Permissions and links are not part of this filesystem.
\<close>

definition rm_rf :: "filesystem \<Rightarrow> path \<Rightarrow> filesystem option" where
  "rm_rf fs p =
     (if \<not> path_accepted p
         \<or> list_ex (\<lambda>q. case fs q of Some (Regular _) \<Rightarrow> True | _ \<Rightarrow> False) (prefixes (butlast p))
      then None
      else Some (\<lambda>q. if prefix p q then None else fs q))"

text \<open>\<^verbatim>\<open>mkdir(p, { recursive: true })\<close>: fails when a regular file stands on the way, else
  creates each missing directory down to \<open>p\<close>.\<close>

definition mkdir_p :: "filesystem \<Rightarrow> path \<Rightarrow> filesystem option" where
  "mkdir_p fs p =
     (if list_ex (\<lambda>q. case fs q of Some (Regular _) \<Rightarrow> True | _ \<Rightarrow> False) (prefixes p) then None
      else Some (\<lambda>q. if prefix q p \<and> fs q = None then Some Directory else fs q))"

text \<open>\<open>writeFile(p, data)\<close>: fails when \<open>p\<close> is a directory or its parent is not one, else
  creates or replaces the file.\<close>

definition write_file :: "filesystem \<Rightarrow> path \<Rightarrow> string \<Rightarrow> filesystem option" where
  "write_file fs p content =
     (if fs p = Some Directory \<or> fs (butlast p) \<noteq> Some Directory then None
      else Some (fs(p \<mapsto> Regular content)))"

section \<open>The store\<close>

text \<open>
  The tables of \<open>initSchema\<close> as lists of rows. The column \<open>status\<close> can only hold the
  three values of its \<open>CHECK\<close> constraint. \<open>data\<close> is the object that the intake handler
  serialises with \<open>JSON.stringify\<close>.
\<close>

datatype status = Pending | Approved | Rejected

record details =
  lineup_name :: string
  stand_desc :: string
  aim_desc :: string
  throw_type :: string

record payload =
  hasScreenshots :: bool
  details :: "details option"

text \<open>
  Modelled from the spec: the column \<open>side\<close> of \<open>submissions\<close>. The intake handler
  inserts into it, and the specification's schema says that an evolved revision adds it;
  \<open>initSchema\<close> in the repository's \<open>db.ts\<close> is the schema before that revision. The other
  columns are those of \<open>initSchema\<close>.
\<close>

record submission =
  status :: status
  csnades_url :: "string option"
  slug :: "string option"
  map_name :: "string option"
  side :: "string option"
  data :: "payload option"
  submitted_at :: nat
  reviewed_at :: "nat option"

text \<open>
  \<open>accounts\<close>: rows \<open>(hash, created_at)\<close>; \<open>bookmarks\<close>: rows
  \<open>(account_hash, slug, created_at)\<close>; \<open>submissions\<close>: rows \<open>(id, columns)\<close>;
  \<open>sequence\<close>: the largest id that \<open>AUTOINCREMENT\<close> has handed out for \<open>submissions\<close>;
  \<open>files\<close>: the filesystem.
\<close>

record state =
  accounts :: "(string \<times> nat) list"
  bookmarks :: "(string \<times> string \<times> nat) list"
  submissions :: "(int \<times> submission) list"
  sequence :: int
  files :: filesystem

text \<open>The id of the next inserted row: one more than the largest id ever in the table.\<close>

definition next_rowid :: "state \<Rightarrow> int" where
  "next_rowid st = foldr max (map fst (submissions st)) (sequence st) + 1"

section \<open>Responses\<close>

datatype body =
    JsonError string
  | JsonOk
  | JsonOkId int
  | JsonOkBookmarks "string list"
  | JsonBookmarked bool

text \<open>A response: status code, JSON body and the \<open>Set-Cookie\<close> header if one is set.\<close>

datatype response = Response nat body "string option"

datatype exn = BindTypeError | ForeignKeyViolation | FilesystemError

text \<open>What a handler does with a request: it sends a response or an exception escapes it.\<close>

datatype outcome = Sent response | Thrown exn

section \<open>getAccountHash\<close>

definition is_hex_lower :: "char \<Rightarrow> bool" where
  "is_hex_lower c = (c \<in> hex_chars)"

text \<open>The leftmost match of \<^verbatim>\<open>/nades_account=([a-f0-9]{64})/\<close>: its group.\<close>

fun match_account :: "string \<Rightarrow> string option" where
  "match_account [] = None"
| "match_account (c # cs) =
     (if take 14 (c # cs) = ''nades_account=''
         \<and> length (take 64 (drop 14 (c # cs))) = 64
         \<and> list_all is_hex_lower (take 64 (drop 14 (c # cs)))
      then Some (take 64 (drop 14 (c # cs)))
      else match_account cs)"

text \<open>\<^verbatim>\<open>request.headers.get('cookie') || ''\<close>, then the match.\<close>

definition getAccountHash :: "string option \<Rightarrow> string option" where
  "getAccountHash cookie = match_account (case cookie of None \<Rightarrow> [] | Some c \<Rightarrow> c)"

section \<open>Login\<close>

text \<open>
  \<open>POST\<close> of the login endpoint. \<open>nickname\<close> is \<open>body.nickname\<close>: a string, or absent.
  \<open>now\<close> is \<open>unixepoch()\<close> at the request. The \<open>SELECT\<close> has no \<open>ORDER BY\<close>, so SQL does not
  fix the order of the slugs it returns; the list here has them in the order of
  insertion, and what is proved of it below is proved of its set.
\<close>

definition login_POST :: "nat \<Rightarrow> string option \<Rightarrow> state \<Rightarrow> outcome \<times> state" where
  "login_POST now body_nickname st =
     (let nickname = map_option trim body_nickname
      in if \<not> truthy_str nickname \<or> length (the nickname) < 3
         then (Sent (Response 400 (JsonError ''Nickname must be at least 3 characters'') None), st)
         else
           (let hash = hashNickname (the nickname);
                st1 = (if hash \<in> set (map fst (accounts st)) then st
                       else st\<lparr>accounts := accounts st @ [(hash, now)]\<rparr>);
                bs = filter (\<lambda>b. fst b = hash) (bookmarks st1)
            in (Sent (Response 200 (JsonOkBookmarks (map (\<lambda>b. fst (snd b)) bs))
                        (Some (''nades_account='' @ hash
                               @ ''; Path=/; HttpOnly; SameSite=Lax; Max-Age=31536000''))),
                st1)))"

section \<open>Bookmark toggle\<close>

definition has_bookmark :: "state \<Rightarrow> string \<Rightarrow> string \<Rightarrow> bool" where
  "has_bookmark st hash s = list_ex (\<lambda>b. fst b = hash \<and> fst (snd b) = s) (bookmarks st)"

text \<open>
  \<open>POST\<close> of \<open>api/bookmarks.ts\<close>. \<open>cookie\<close> is the request's cookie header and
  \<open>body_slug\<close> is \<open>slug\<close> of the body: a string, or absent. The insert is refused by the
  foreign key of \<open>bookmarks.account_hash\<close> when \<open>accounts\<close> has no row for the hash
  (\<open>foreign_keys = ON\<close>).
\<close>

definition bookmarks_POST :: "nat \<Rightarrow> string option \<Rightarrow> string option \<Rightarrow> state \<Rightarrow> outcome \<times> state" where
  "bookmarks_POST now cookie body_slug st =
     (case getAccountHash cookie of
        None \<Rightarrow> (Sent (Response 401 (JsonError ''Not logged in'') None), st)
      | Some hash \<Rightarrow>
          if \<not> truthy_str body_slug
          then (Sent (Response 400 (JsonError ''Missing slug'') None), st)
          else
            (let s = the body_slug
             in if has_bookmark st hash s
                then (Sent (Response 200 (JsonBookmarked False) None),
                      st\<lparr>bookmarks := filter (\<lambda>b. \<not> (fst b = hash \<and> fst (snd b) = s)) (bookmarks st)\<rparr>)
                else if hash \<in> set (map fst (accounts st))
                then (Sent (Response 200 (JsonBookmarked True) None),
                      st\<lparr>bookmarks := bookmarks st @ [(hash, s, now)]\<rparr>)
                else (Thrown ForeignKeyViolation, st)))"

section \<open>Moderation\<close>

text \<open>
  The rows that \<open>WHERE id = ?\<close> selects for a bound value: for a number, the row with that
  id; for text, the row with the id that the store's comparison rule reads from the text,
  if any (\<open>text_key\<close>, a parameter). The driver refuses to bind a boolean or \<open>undefined\<close>.
\<close>

fun bindable :: "jsval \<Rightarrow> bool" where
  "bindable (JBool b) = False"
| "bindable JUndefined = False"
| "bindable v = True"

fun row_matches :: "(string \<Rightarrow> int option) \<Rightarrow> jsval \<Rightarrow> int \<Rightarrow> bool" where
  "row_matches text_key (JNum n) k = (k = n)"
| "row_matches text_key (JStr s) k = (text_key s = Some k)"
| "row_matches text_key v k = False"

text \<open>\<^verbatim>\<open>UPDATE submissions SET status = ?, reviewed_at = unixepoch() WHERE id = ?\<close>\<close>

definition update_status ::
  "(string \<Rightarrow> int option) \<Rightarrow> nat \<Rightarrow> status \<Rightarrow> jsval \<Rightarrow> (int \<times> submission) list \<Rightarrow> (int \<times> submission) list" where
  "update_status text_key now s v rows =
     map (\<lambda>(k, r). if row_matches text_key v k
                    then (k, r\<lparr>status := s, reviewed_at := Some now\<rparr>) else (k, r)) rows"

text \<open>\<^verbatim>\<open>DELETE FROM submissions WHERE id = ?\<close>\<close>

definition delete_rows ::
  "(string \<Rightarrow> int option) \<Rightarrow> jsval \<Rightarrow> (int \<times> submission) list \<Rightarrow> (int \<times> submission) list" where
  "delete_rows text_key v rows = filter (\<lambda>(k, r). \<not> row_matches text_key v k) rows"

definition decided :: "jsval \<Rightarrow> status" where
  "decided v = (if v = JStr ''approved'' then Approved else Rejected)"

text \<open>The staging directory of the admin application: \<^verbatim>\<open>join(process.cwd(), '..', 'staging', String(id))\<close>.\<close>

definition admin_stagingDir :: "path \<Rightarrow> jsval \<Rightarrow> path" where
  "admin_stagingDir cwd v = join cwd [''..'', ''staging'', js_String v]"

definition invalid_data :: outcome where
  "invalid_data = Sent (Response 400 (JsonError ''Invalid data'') None)"

definition ok :: outcome where
  "ok = Sent (Response 200 JsonOk None)"

text \<open>
  \<open>POST\<close> of \<open>admin/src/pages/api/review.ts\<close>, on the body's \<open>id\<close> and \<open>status\<close>. In the
  branch \<open>deleted\<close> the removal of the staging directory is awaited first: when it fails,
  the exception leaves the handler before the \<open>DELETE\<close> runs.
\<close>

definition review_POST ::
  "(string \<Rightarrow> int option) \<Rightarrow> path \<Rightarrow> nat \<Rightarrow> jsval \<Rightarrow> jsval \<Rightarrow> state \<Rightarrow> outcome \<times> state" where
  "review_POST text_key cwd now v target st =
     (if \<not> truthy v \<or> target \<notin> set [JStr ''approved'', JStr ''rejected'', JStr ''deleted'']
      then (invalid_data, st)
      else if target = JStr ''deleted''
      then
        (case rm_rf (files st) (admin_stagingDir cwd v) of
           None \<Rightarrow> (Thrown FilesystemError, st)
         | Some fs1 \<Rightarrow>
             (let st1 = st\<lparr>files := fs1\<rparr>
              in if bindable v
                 then (ok, st1\<lparr>submissions := delete_rows text_key v (submissions st1)\<rparr>)
                 else (Thrown BindTypeError, st1)))
      else if bindable v
      then (ok, st\<lparr>submissions := update_status text_key now (decided target) v (submissions st)\<rparr>)
      else (Thrown BindTypeError, st))"

text \<open>
  \<open>POST\<close> of the earlier revision of the review endpoint, which supports \<open>approved\<close> and
  \<open>rejected\<close> only.
\<close>

definition review_POST_earlier ::
  "(string \<Rightarrow> int option) \<Rightarrow> nat \<Rightarrow> jsval \<Rightarrow> jsval \<Rightarrow> state \<Rightarrow> outcome \<times> state" where
  "review_POST_earlier text_key now v target st =
     (if \<not> truthy v \<or> target \<notin> set [JStr ''approved'', JStr ''rejected'']
      then (invalid_data, st)
      else if bindable v
      then (ok, st\<lparr>submissions := update_status text_key now (decided target) v (submissions st)\<rparr>)
      else (Thrown BindTypeError, st))"

section \<open>Submission intake\<close>

text \<open>
  The multipart form of a submission. A text field is a string or absent; each of the
  three screenshot fields is absent, a text value, or a file with its size in bytes
  and its content.
\<close>

datatype entry = TextField string | FileField nat string

record form =
  f_csnades_url :: "string option"
  f_map :: "string option"
  f_side :: "string option"
  f_lineup_name :: "string option"
  f_stand_desc :: "string option"
  f_aim_desc :: "string option"
  f_throw_type :: "string option"
  f_position :: "entry option"
  f_aim :: "entry option"
  f_result :: "entry option"

definition MAX_FILE_SIZE :: nat where
  "MAX_FILE_SIZE = 10 * 1024 * 1024"

definition VALID_MAPS :: "string list" where
  "VALID_MAPS = [''mirage'', ''dust2'', ''inferno'', ''overpass'', ''ancient'', ''anubis'', ''nuke'']"

definition VALID_THROW_TYPES :: "string list" where
  "VALID_THROW_TYPES = [''left'', ''right'', ''left_jump'', ''run_left'']"

definition screenshot_names :: "string list" where
  "screenshot_names = [''position'', ''aim'', ''result'']"

text \<open>\<open>formData.get(name)\<close> for the name of a screenshot field.\<close>

definition screenshot_field :: "form \<Rightarrow> string \<Rightarrow> entry option" where
  "screenshot_field f name =
     (if name = ''position'' then f_position f
      else if name = ''aim'' then f_aim f
      else if name = ''result'' then f_result f
      else None)"

text \<open>\<^verbatim>\<open>formData.has('position') && formData.has('aim') && formData.has('result')\<close>\<close>

definition has_screenshots :: "form \<Rightarrow> bool" where
  "has_screenshots f = (f_position f \<noteq> None \<and> f_aim f \<noteq> None \<and> f_result f \<noteq> None)"

text \<open>
  \<^verbatim>\<open>!file || file.size === 0\<close> and \<^verbatim>\<open>file.size > MAX_FILE_SIZE\<close>. A text value has no
  \<open>size\<close>: it is falsy when empty, and both comparisons with \<open>undefined\<close> are false.
\<close>

fun entry_missing :: "entry option \<Rightarrow> bool" where
  "entry_missing None = True"
| "entry_missing (Some (TextField s)) = (s = [])"
| "entry_missing (Some (FileField n content)) = (n = 0)"

fun entry_too_large :: "entry option \<Rightarrow> bool" where
  "entry_too_large (Some (FileField n content)) = (n > MAX_FILE_SIZE)"
| "entry_too_large e = False"

fun check_files :: "form \<Rightarrow> string list \<Rightarrow> string option" where
  "check_files f [] = None"
| "check_files f (name # names) =
     (if entry_missing (screenshot_field f name) then Some (''Missing '' @ name @ '' screenshot'')
      else if entry_too_large (screenshot_field f name)
      then Some (name @ '' screenshot exceeds 10 MB limit'')
      else check_files f names)"

text \<open>\<^verbatim>\<open>!s || !s.trim()\<close>\<close>

definition blank :: "string option \<Rightarrow> bool" where
  "blank s = (\<not> truthy_str s \<or> trim (the s) = [])"

text \<open>
  \<^verbatim>\<open>parsed.hostname !== 'csnades.gg' && parsed.hostname !== 'www.csnades.gg'\<close>, inside the
  \<open>try\<close>: it is reached only when the URL has parsed.
\<close>

fun off_domain :: "string option \<Rightarrow> bool" where
  "off_domain None = False"
| "off_domain (Some hostname) = (hostname \<noteq> ''csnades.gg'' \<and> hostname \<noteq> ''www.csnades.gg'')"

text \<open>
  The checks of the handler in their order: the message of the first one that fails.
  \<open>hostname_of\<close> is the platform's URL parser: the \<open>hostname\<close> of \<open>new URL(s)\<close>, or \<open>None\<close>
  where the constructor throws.
\<close>

definition validate :: "(string \<Rightarrow> string option) \<Rightarrow> form \<Rightarrow> string option" where
  "validate hostname_of f =
     (let csnadesUrl = f_csnades_url f; mapName = f_map f; side = f_side f;
          hasScreenshots = has_screenshots f
      in if \<not> truthy_str csnadesUrl \<and> \<not> hasScreenshots
         then Some ''Provide a csnades.gg URL or 3 screenshots''
         else if truthy_str csnadesUrl \<and> off_domain (hostname_of (the csnadesUrl))
         then Some ''URL must be from csnades.gg''
         else if truthy_str csnadesUrl \<and> hostname_of (the csnadesUrl) = None
         then Some ''Invalid URL format''
         else if hasScreenshots \<and> \<not> truthy_str mapName
         then Some ''Map name is required with screenshots''
         else if truthy_str mapName \<and> the mapName \<notin> set VALID_MAPS
         then Some ''Invalid map name''
         else if truthy_str side \<and> the side \<notin> set [''t'', ''ct'']
         then Some ''Invalid side value''
         else if hasScreenshots \<and> blank (f_lineup_name f)
         then Some ''Lineup name is required with screenshots''
         else if hasScreenshots \<and> blank (f_stand_desc f)
         then Some ''Stand description is required with screenshots''
         else if hasScreenshots \<and> blank (f_aim_desc f)
         then Some ''Aim description is required with screenshots''
         else if hasScreenshots
                 \<and> (\<not> truthy_str (f_throw_type f) \<or> the (f_throw_type f) \<notin> set VALID_THROW_TYPES)
         then Some ''Valid throw type is required with screenshots''
         else if hasScreenshots then check_files f screenshot_names
         else None)"

text \<open>
  \<^verbatim>\<open>INSERT INTO submissions (csnades_url, map_name, side, data) VALUES (?, ?, ?, ?)\<close>: the new
  row, with the defaults of the schema for the other columns, and \<open>lastInsertRowid\<close>.
\<close>

definition new_submission :: "nat \<Rightarrow> form \<Rightarrow> submission" where
  "new_submission now f =
     \<lparr>status = Pending, csnades_url = f_csnades_url f, slug = None, map_name = f_map f,
      side = f_side f,
      data = Some \<lparr>hasScreenshots = has_screenshots f,
                   details = (if has_screenshots f
                              then Some \<lparr>lineup_name = trim (the (f_lineup_name f)),
                                         stand_desc = trim (the (f_stand_desc f)),
                                         aim_desc = trim (the (f_aim_desc f)),
                                         throw_type = the (f_throw_type f)\<rparr>
                              else None)\<rparr>,
      submitted_at = now, reviewed_at = None\<rparr>"

definition insert_submission :: "nat \<Rightarrow> form \<Rightarrow> state \<Rightarrow> int \<times> state" where
  "insert_submission now f st =
     (next_rowid st,
      st\<lparr>submissions := submissions st @ [(next_rowid st, new_submission now f)],
         sequence := next_rowid st\<rparr>)"

text \<open>\<^verbatim>\<open>join(process.cwd(), 'staging', String(result.lastInsertRowid))\<close>\<close>

definition stagingDir :: "path \<Rightarrow> int \<Rightarrow> path" where
  "stagingDir cwd rowid = join cwd [''staging'', js_String (JNum rowid)]"

text \<open>
  The loop that writes the screenshots: a file of positive size is written to
  \<^verbatim>\<open>join(stagingDir, `${name}.jpg`)\<close>. The result is the filesystem reached and the
  exception, if a write failed.
\<close>

fun write_screenshots :: "path \<Rightarrow> form \<Rightarrow> string list \<Rightarrow> filesystem \<Rightarrow> exn option \<times> filesystem" where
  "write_screenshots dir f [] fs = (None, fs)"
| "write_screenshots dir f (name # names) fs =
     (case screenshot_field f name of
        Some (FileField n content) \<Rightarrow>
          if n > 0
          then (case write_file fs (join dir [name @ ''.jpg'']) content of
                  None \<Rightarrow> (Some FilesystemError, fs)
                | Some fs' \<Rightarrow> write_screenshots dir f names fs')
          else write_screenshots dir f names fs
      | _ \<Rightarrow> write_screenshots dir f names fs)"

text \<open>\<open>POST\<close> of the submission endpoint (the revision with the descriptive fields).\<close>

definition submit_POST ::
  "(string \<Rightarrow> string option) \<Rightarrow> path \<Rightarrow> nat \<Rightarrow> form \<Rightarrow> state \<Rightarrow> outcome \<times> state" where
  "submit_POST hostname_of cwd now f st =
     (case validate hostname_of f of
        Some msg \<Rightarrow> (Sent (Response 400 (JsonError msg) None), st)
      | None \<Rightarrow>
          (let (rowid, st1) = insert_submission now f st
           in if has_screenshots f
              then (case mkdir_p (files st1) (stagingDir cwd rowid) of
                      None \<Rightarrow> (Thrown FilesystemError, st1)
                    | Some fs1 \<Rightarrow>
                        (case write_screenshots (stagingDir cwd rowid) f screenshot_names fs1 of
                           (Some e, fs2) \<Rightarrow> (Thrown e, st1\<lparr>files := fs2\<rparr>)
                         | (None, fs2) \<Rightarrow>
                             (Sent (Response 200 (JsonOkId rowid) None), st1\<lparr>files := fs2\<rparr>)))
              else (Sent (Response 200 (JsonOkId rowid) None), st1)))"

section \<open>The validation rules of the specification\<close>

text \<open>
  The rules that the specification lists for a submission request, each with the message
  that the handler has for it.
\<close>

datatype rule =
    NoUrlNoScreenshots
  | MalformedUrl
  | OffDomainUrl
  | MapRequired
  | UnsupportedMap
  | InvalidSide
  | LineupNameRequired
  | StandDescRequired
  | AimDescRequired
  | ThrowTypeRequired
  | ScreenshotMissing string
  | ScreenshotTooLarge string

text \<open>
  A screenshot item is a file carried under one of the three names. An item is empty
  when the file has no bytes, and too large when it has more than 10 MiB. In a request
  that carries one of the three fields, an item is missing when its field is absent or
  holds a text value in place of a file.
\<close>

fun is_file :: "entry option \<Rightarrow> bool" where
  "is_file (Some (FileField n content)) = True"
| "is_file e = False"

fun empty_item :: "entry option \<Rightarrow> bool" where
  "empty_item (Some (FileField n content)) = (n = 0)"
| "empty_item e = False"

fun oversized_item :: "entry option \<Rightarrow> bool" where
  "oversized_item (Some (FileField n content)) = (10 * 1024 * 1024 < n)"
| "oversized_item e = False"

definition carries_screenshots :: "form \<Rightarrow> bool" where
  "carries_screenshots f = (f_position f \<noteq> None \<or> f_aim f \<noteq> None \<or> f_result f \<noteq> None)"

text \<open>
  \<open>fails hn f r\<close>: the request \<open>f\<close> fails the rule \<open>r\<close>, in the words of the specification.
  The first rule and the rules on the other fields speak of the screenshots as the full
  set of three fields; the rules on a screenshot item speak of any item that the request
  carries, and of a missing item in any request that carries one of the three fields.
\<close>

fun fails :: "(string \<Rightarrow> string option) \<Rightarrow> form \<Rightarrow> rule \<Rightarrow> bool" where
  "fails hn f NoUrlNoScreenshots = (\<not> truthy_str (f_csnades_url f) \<and> \<not> has_screenshots f)"
| "fails hn f MalformedUrl = (truthy_str (f_csnades_url f) \<and> hn (the (f_csnades_url f)) = None)"
| "fails hn f OffDomainUrl =
     (truthy_str (f_csnades_url f)
      \<and> (\<exists>host. hn (the (f_csnades_url f)) = Some host \<and> host \<notin> {''csnades.gg'', ''www.csnades.gg''}))"
| "fails hn f MapRequired = (has_screenshots f \<and> \<not> truthy_str (f_map f))"
| "fails hn f UnsupportedMap = (truthy_str (f_map f) \<and> the (f_map f) \<notin> set VALID_MAPS)"
| "fails hn f InvalidSide = (truthy_str (f_side f) \<and> the (f_side f) \<noteq> ''t'' \<and> the (f_side f) \<noteq> ''ct'')"
| "fails hn f LineupNameRequired = (has_screenshots f \<and> blank (f_lineup_name f))"
| "fails hn f StandDescRequired = (has_screenshots f \<and> blank (f_stand_desc f))"
| "fails hn f AimDescRequired = (has_screenshots f \<and> blank (f_aim_desc f))"
| "fails hn f ThrowTypeRequired =
     (has_screenshots f
      \<and> (\<not> truthy_str (f_throw_type f) \<or> the (f_throw_type f) \<notin> set VALID_THROW_TYPES))"
| "fails hn f (ScreenshotMissing name) =
     (name \<in> set screenshot_names \<and> carries_screenshots f
      \<and> (\<not> is_file (screenshot_field f name) \<or> empty_item (screenshot_field f name)))"
| "fails hn f (ScreenshotTooLarge name) =
     (name \<in> set screenshot_names \<and> oversized_item (screenshot_field f name))"

text \<open>
  The handler looks at the screenshot items only in a request that has all three fields,
  and it does not tell a text value from a file: a rule on a screenshot item is in force
  when the three fields are there and, for the rule on a missing item, the field does not
  hold a non-empty text value. Every other rule is always in force.
\<close>

fun in_force :: "form \<Rightarrow> rule \<Rightarrow> bool" where
  "in_force f (ScreenshotMissing name) =
     (has_screenshots f
      \<and> (case screenshot_field f name of Some (TextField s) \<Rightarrow> s = [] | _ \<Rightarrow> True))"
| "in_force f (ScreenshotTooLarge name) = has_screenshots f"
| "in_force f r = True"

text \<open>\<open>violates hn f r\<close>: the request fails a rule that is in force.\<close>

definition violates :: "(string \<Rightarrow> string option) \<Rightarrow> form \<Rightarrow> rule \<Rightarrow> bool" where
  "violates hn f r = (fails hn f r \<and> in_force f r)"

fun message :: "rule \<Rightarrow> string" where
  "message NoUrlNoScreenshots = ''Provide a csnades.gg URL or 3 screenshots''"
| "message MalformedUrl = ''Invalid URL format''"
| "message OffDomainUrl = ''URL must be from csnades.gg''"
| "message MapRequired = ''Map name is required with screenshots''"
| "message UnsupportedMap = ''Invalid map name''"
| "message InvalidSide = ''Invalid side value''"
| "message LineupNameRequired = ''Lineup name is required with screenshots''"
| "message StandDescRequired = ''Stand description is required with screenshots''"
| "message AimDescRequired = ''Aim description is required with screenshots''"
| "message ThrowTypeRequired = ''Valid throw type is required with screenshots''"
| "message (ScreenshotMissing name) = ''Missing '' @ name @ '' screenshot''"
| "message (ScreenshotTooLarge name) = name @ '' screenshot exceeds 10 MB limit''"

definition all_rules :: "rule list" where
  "all_rules =
     [NoUrlNoScreenshots, MalformedUrl, OffDomainUrl, MapRequired, UnsupportedMap, InvalidSide,
      LineupNameRequired, StandDescRequired, AimDescRequired, ThrowTypeRequired]
     @ concat (map (\<lambda>name. [ScreenshotMissing name, ScreenshotTooLarge name]) screenshot_names)"

text \<open>
  What the claims about an accepted submission speak of: the content of a screenshot
  field that is a file, a form whose three screenshot fields are files, and a filesystem
  in which nothing stands in the way of staging into \<open>dir\<close> (no regular file at \<open>dir\<close> or
  above it, no directory where a screenshot is to be written).
\<close>

fun content_of :: "entry option \<Rightarrow> string" where
  "content_of (Some (FileField n content)) = content"
| "content_of e = []"

definition full_screenshot_set :: "form \<Rightarrow> bool" where
  "full_screenshot_set f = (is_file (f_position f) \<and> is_file (f_aim f) \<and> is_file (f_result f))"

definition staging_free :: "filesystem \<Rightarrow> path \<Rightarrow> bool" where
  "staging_free fs dir =
     (list_all (\<lambda>q. case fs q of Some (Regular c) \<Rightarrow> False | _ \<Rightarrow> True) (prefixes dir)
      \<and> list_all (\<lambda>name. fs (dir @ [name @ ''.jpg'']) \<noteq> Some Directory) screenshot_names)"

text \<open>
  What the claims about a deletion speak of: a filesystem in which nothing stands in the
  way of removing \<open>dir\<close> (the platform takes the path, and no regular file stands above
  it).
\<close>

definition removal_unhindered :: "filesystem \<Rightarrow> path \<Rightarrow> bool" where
  "removal_unhindered fs dir =
     (path_accepted dir
      \<and> list_all (\<lambda>q. case fs q of Some (Regular c) \<Rightarrow> False | _ \<Rightarrow> True) (prefixes (butlast dir)))"

text \<open>The first result of a list of checks, each \<open>None\<close> when it passes.\<close>

fun first_some :: "'a option list \<Rightarrow> 'a option" where
  "first_some [] = None"
| "first_some (None # xs) = first_some xs"
| "first_some (Some x # xs) = Some x"

section \<open>Concrete states\<close>

text \<open>The states and parameters that the concrete evaluations below run on.\<close>

definition empty_state :: state where
  "empty_state = \<lparr>accounts = [], bookmarks = [], submissions = [], sequence = 0, files = Map.empty\<rparr>"

definition url_submission :: "nat \<Rightarrow> submission" where
  "url_submission t =
     \<lparr>status = Pending, csnades_url = Some ''https://csnades.gg/lineups/42'', slug = None,
      map_name = None, side = None, data = Some \<lparr>hasScreenshots = False, details = None\<rparr>,
      submitted_at = t, reviewed_at = None\<rparr>"

text \<open>The admin application runs in the directory \<open>admin\<close> of the site's directory.\<close>

definition admin_cwd :: path where
  "admin_cwd = [''srv'', ''cs-nades'', ''admin'']"

text \<open>A comparison rule under which no text equals a row id.\<close>

definition no_text_key :: "string \<Rightarrow> int option" where
  "no_text_key s = None"

text \<open>Submission 1, approved at time 200.\<close>

definition approved_state :: state where
  "approved_state =
     empty_state\<lparr>submissions := [(1, (url_submission 100)\<lparr>status := Approved, reviewed_at := Some 200\<rparr>)]\<rparr>"

text \<open>Submission 7 with a staged screenshot, beside the database file of the site.\<close>

definition staged_state :: state where
  "staged_state =
     empty_state
       \<lparr>submissions := [(7, (url_submission 100)\<lparr>csnades_url := None, map_name := Some ''mirage''\<rparr>)],
        sequence := 7,
        files := [[''srv'', ''cs-nades''] \<mapsto> Directory,
                  [''srv'', ''cs-nades'', ''cs-nades.db''] \<mapsto> Regular ''SQLite format 3'',
                  [''srv'', ''cs-nades'', ''staging''] \<mapsto> Directory,
                  [''srv'', ''cs-nades'', ''staging'', ''7''] \<mapsto> Directory,
                  [''srv'', ''cs-nades'', ''staging'', ''7'', ''position.jpg''] \<mapsto> Regular ''jpeg'']\<rparr>"

text \<open>The keys of the table \<open>bookmarks\<close>: its (account hash, slug) pairs.\<close>

definition bookmark_keys :: "state \<Rightarrow> (string \<times> string) set" where
  "bookmark_keys st = set (map (\<lambda>b. (fst b, fst (snd b))) (bookmarks st))"

text \<open>A cookie header of the right shape, and a state whose only account is the one it names.\<close>

definition forged_cookie :: string where
  "forged_cookie = ''nades_account='' @ replicate 64 CHR ''a''"

definition member_state :: state where
  "member_state = empty_state\<lparr>accounts := [(replicate 64 CHR ''a'', 100)]\<rparr>"

text \<open>
  A stand-in for the URL parser on URLs of the form \<open>https://host/...\<close>, the directory
  of the site, and four forms: a link; a full set of screenshots whose first item has
  the given size; a link with one screenshot item of 10 MiB and one byte beside it; and
  a full set in which \<open>position\<close> holds a text value in place of a file.
\<close>

definition https_host :: "string \<Rightarrow> string option" where
  "https_host u =
     (if take 8 u = ''https://'' \<and> takeWhile (\<lambda>c. c \<noteq> CHR ''/'') (drop 8 u) \<noteq> []
      then Some (takeWhile (\<lambda>c. c \<noteq> CHR ''/'') (drop 8 u)) else None)"

definition site_cwd :: path where
  "site_cwd = [''srv'', ''cs-nades'']"

definition url_form :: "string \<Rightarrow> form" where
  "url_form u =
     \<lparr>f_csnades_url = Some u, f_map = None, f_side = None, f_lineup_name = None,
      f_stand_desc = None, f_aim_desc = None, f_throw_type = None,
      f_position = None, f_aim = None, f_result = None\<rparr>"

definition screenshot_form :: "nat \<Rightarrow> form" where
  "screenshot_form n =
     \<lparr>f_csnades_url = None, f_map = Some ''mirage'', f_side = Some ''t'',
      f_lineup_name = Some ''Window smoke'', f_stand_desc = Some ''Corner of T spawn'',
      f_aim_desc = Some ''Tip of the antenna'', f_throw_type = Some ''left_jump'',
      f_position = Some (FileField n ''position bytes''), f_aim = Some (FileField 3 ''aim bytes''),
      f_result = Some (FileField 3 ''result bytes'')\<rparr>"

definition oversized_beside_url :: form where
  "oversized_beside_url =
     (url_form ''https://csnades.gg/lineups/42'')
       \<lparr>f_position := Some (FileField 10485761 ''position bytes'')\<rparr>"

definition text_for_position :: form where
  "text_for_position = (screenshot_form 3)\<lparr>f_position := Some (TextField ''position bytes'')\<rparr>"

section \<open>Theorems\<close>

subsection \<open>hashNickname\<close>

lemma hex_digit_in: "n < 16 \<Longrightarrow> hex_digit n \<in> hex_chars"
  unfolding hex_digit_def hex_chars_def by (rule nth_mem) simp

lemma nibble_less: "unat ((w :: w32) AND 0xF) < 16"
proof -
  have "w AND 0xF \<le> 0xF" by (rule word_and_le1)
  then have "unat (w AND 0xF) \<le> unat (0xF :: w32)" by (simp add: word_le_nat_alt)
  then show ?thesis by simp
qed

lemma length_hex32: "length (hex32 w) = 8"
  by (simp add: hex32_def)

lemma set_hex32: "set (hex32 w) \<subseteq> hex_chars"
  unfolding hex32_def using hex_digit_in [OF nibble_less] by auto

lemma hash_state_cases:
  obtains a b c d e f g h where "(H :: hash_state) = (a, b, c, d, e, f, g, h)"
  by (metis surj_pair)

lemma length_digest_hex: "length (digest_hex H) = 64"
  by (rule hash_state_cases [of H]) (simp add: length_hex32)

lemma set_digest_hex: "set (digest_hex H) \<subseteq> hex_chars"
  by (rule hash_state_cases [of H]) (use set_hex32 in auto)

text \<open>The model of the digest on the example message \<open>abc\<close> of FIPS 180-4.\<close>

lemma hashNickname_abc:
  "hashNickname ''abc'' = ''ba7816bf8f01cfea414140de5dae2223b00361a396177a9cb410ff61f20015ad''"
  by code_simp

text \<open>
  C7. Two nicknames with the same normal form (trimmed, then lowercased) have the same
  hash, and every hash is 64 characters long, each a lowercase hexadecimal digit.
  \<open>hashNickname\<close> is a function of the nickname alone: it reads and writes no state.
\<close>

theorem hashNickname_normalised_hex64:
  "(toLowerCase (trim a) = toLowerCase (trim b) \<longrightarrow> hashNickname a = hashNickname b)
   \<and> length (hashNickname a) = 64
   \<and> set (hashNickname a) \<subseteq> set ''0123456789abcdef''"
  unfolding hashNickname_def using set_digest_hex [unfolded hex_chars_def]
  by (simp add: length_digest_hex)

theorem hashNickname_normalised_hex64_witness:
  "toLowerCase (trim ''  Hello  '') = toLowerCase (trim ''hello'')
   \<and> hashNickname ''  Hello  '' = hashNickname ''hello''
   \<and> length (hashNickname ''  Hello  '') = 64"
proof -
  have n: "toLowerCase (trim ''  Hello  '') = toLowerCase (trim ''hello'')"
    by code_simp
  from hashNickname_normalised_hex64 [of "''  Hello  ''" "''hello''"] n
  show ?thesis by blast
qed

subsection \<open>seededShuffle\<close>

text \<open>
  Below \<open>2^53\<close> the rounding changes nothing, so the code's seed update is the exact
  recurrence as long as \<open>s * 1103515245 + 12345\<close> stays below \<open>2^53\<close>, that is for a seed
  below about 8.16 million. The update itself yields a value up to \<open>2^31\<close>, so from the
  second iteration on the product is rounded.
\<close>

lemma bit_length_le: "m < 2 ^ k \<Longrightarrow> bit_length m \<le> k"
proof (induction k arbitrary: m)
  case 0
  then show ?case by (simp add: bit_length.simps)
next
  case (Suc k)
  show ?case
  proof (cases "m \<le> 0")
    case True
    then show ?thesis by (simp add: bit_length.simps)
  next
    case False
    from Suc.prems have "m div 2 < 2 ^ k" by simp
    from Suc.IH [OF this] False show ?thesis
      by (subst bit_length.simps) simp
  qed
qed

lemma round_to_double_exact: "\<bar>x\<bar> < 2 ^ 53 \<Longrightarrow> round_to_double x = x"
proof -
  assume "\<bar>x\<bar> < 2 ^ 53"
  then have "bit_length \<bar>x\<bar> - 53 = 0"
    using bit_length_le [of "\<bar>x\<bar>" 53] by simp
  then show ?thesis
    by (simp add: round_to_double_def Let_def sgn_mult_abs)
qed

lemma mask31: "sint ((word_of_int x :: 32 word) AND 0x7fffffff) = x mod 2 ^ 31"
proof -
  have "(0x7fffffff :: 32 word) = mask 31" by (simp add: mask_eq_exp_minus_1)
  then have a: "(word_of_int x :: 32 word) AND 0x7fffffff = take_bit 31 (word_of_int x)"
    by (simp add: take_bit_eq_mask)
  have "uint (take_bit 31 (word_of_int x :: 32 word)) = take_bit 31 x"
    by (simp add: unsigned_take_bit_eq uint_word_of_int_eq)
  then have "sint (take_bit 31 (word_of_int x :: 32 word)) = take_bit 31 x"
    by (simp add: sint_uint signed_take_bit_take_bit)
  with a show ?thesis by (simp add: take_bit_eq_mod)
qed

lemma next_seed_rounded:
  "next_seed s = round_to_double (round_to_double (s * 1103515245) + 12345) mod 2 ^ 31"
  by (simp add: next_seed_def to_int32_def js_add_def js_mul_def mask31)

lemma next_seed_exact:
  assumes "0 \<le> s" and "s * 1103515245 + 12345 < 2 ^ 53"
  shows "next_seed s = exact_next_seed s"
proof -
  from assms have "\<bar>s * 1103515245\<bar> < 2 ^ 53" "\<bar>s * 1103515245 + 12345\<bar> < 2 ^ 53" by auto
  then show ?thesis
    by (simp add: next_seed_rounded exact_next_seed_def round_to_double_exact)
qed

text \<open>
  C10. On the array and seed of the repository's own test, \<open>seededShuffle([1,2,3,4,5], 42)\<close>,
  the code's ordering is not the one of the exact-integer recurrence: the second product
  \<open>1250496027 * 1103515245\<close> exceeds \<open>2^53\<close> and is rounded before the mask is applied.
\<close>

theorem seededShuffle_departs_from_exact_recurrence:
  "seededShuffle [1, 2, 3, 4, 5 :: int] 42 = [2, 5, 4, 1, 3]
   \<and> exact_shuffle [1, 2, 3, 4, 5 :: int] 42 = [2, 4, 5, 1, 3]
   \<and> next_seed (next_seed 42) = 1116302080
   \<and> exact_next_seed (exact_next_seed 42) = 1116302264"
  by code_simp

subsection \<open>Moderation\<close>

lemma decimal_digits: "decimal n \<noteq> [] \<and> set (decimal n) \<subseteq> set ''0123456789''"
proof (induction n rule: decimal.induct)
  case (1 n)
  have d: "''0123456789'' ! k \<in> set ''0123456789''" if "k < 10" for k
    by (rule nth_mem) (use that in simp)
  show ?case
  proof (cases "n < 10")
    case True
    with d [of n] show ?thesis by (subst decimal.simps, subst (2) decimal.simps) simp
  next
    case False
    have "n mod 10 < 10" by simp
    with 1 False d [of "n mod 10"] show ?thesis
      by (subst decimal.simps, subst (2) decimal.simps) simp
  qed
qed

lemma segments_plain: "CHR ''/'' \<notin> set s \<Longrightarrow> segments s = [s]"
  by (induction s) auto

lemma js_String_JNum_plain:
  "CHR ''/'' \<notin> set (js_String (JNum n)) \<and> js_String (JNum n) \<notin> {[], ''.'', ''..''}"
proof -
  have a: "CHR ''/'' \<notin> set (decimal k) \<and> CHR ''.'' \<notin> set (decimal k) \<and> decimal k \<noteq> []" for k
    using decimal_digits [of k] by auto
  show ?thesis
  proof (cases "n < 0")
    case True
    then show ?thesis using a [of "nat (- n)"] by auto
  next
    case False
    then show ?thesis using a [of "nat n"] by auto
  qed
qed

lemma admin_stagingDir_JNum:
  "admin_stagingDir cwd (JNum n) = butlast cwd @ [''staging'', js_String (JNum n)]"
proof -
  have s: "segments (js_String (JNum n)) = [js_String (JNum n)]"
    using js_String_JNum_plain by (intro segments_plain) blast
  have w: "walk p (js_String (JNum n)) = p @ [js_String (JNum n)]" for p
    using js_String_JNum_plain [of n] unfolding walk_def by auto
  show ?thesis
    unfolding admin_stagingDir_def join_def
    by (simp add: s w del: js_String.simps) (simp add: walk_def)
qed

lemma staged_dir: "admin_stagingDir admin_cwd (JNum 7) = [''srv'', ''cs-nades'', ''staging'', ''7'']"
  by code_simp

lemma escape_dir: "admin_stagingDir admin_cwd (JStr ''../cs-nades.db'') = [''srv'', ''cs-nades'', ''cs-nades.db'']"
  by code_simp

text \<open>
  C1, as the claim states it, fails: a review request on a submission that is already
  approved changes its status and its review timestamp once more, in both revisions of
  the endpoint.
\<close>

theorem review_overwrites_decided_submission:
  "submissions approved_state = [(1, (url_submission 100)\<lparr>status := Approved, reviewed_at := Some 200\<rparr>)]
   \<and> review_POST no_text_key admin_cwd 300 (JNum 1) (JStr ''rejected'') approved_state
     = (Sent (Response 200 JsonOk None),
        approved_state\<lparr>submissions :=
          [(1, (url_submission 100)\<lparr>status := Rejected, reviewed_at := Some 300\<rparr>)]\<rparr>)
   \<and> review_POST_earlier no_text_key 300 (JNum 1) (JStr ''rejected'') approved_state
     = (Sent (Response 200 JsonOk None),
        approved_state\<lparr>submissions :=
          [(1, (url_submission 100)\<lparr>status := Rejected, reviewed_at := Some 300\<rparr>)]\<rparr>)"
  by (simp add: review_POST_def review_POST_earlier_def update_status_def decided_def ok_def
      approved_state_def empty_state_def url_submission_def)

text \<open>
  C1, amended. A decision \<open>approved\<close> or \<open>rejected\<close> for the submission \<open>n\<close> is one
  update that sets the status and the review timestamp of row \<open>n\<close> together, whatever the
  status of the row was, and touches no other row, column, table or file; this holds in
  both revisions of the endpoint. The status written is never \<open>pending\<close>.
\<close>

theorem review_decision_sets_status_and_timestamp:
  assumes "target = JStr ''approved'' \<or> target = JStr ''rejected''" and "n \<noteq> 0"
  shows "review_POST text_key cwd now (JNum n) target st =
           (ok, st\<lparr>submissions :=
                  map (\<lambda>(k, r). if k = n then (k, r\<lparr>status := decided target, reviewed_at := Some now\<rparr>)
                                 else (k, r)) (submissions st)\<rparr>)
         \<and> review_POST_earlier text_key now (JNum n) target st =
           (ok, st\<lparr>submissions :=
                  map (\<lambda>(k, r). if k = n then (k, r\<lparr>status := decided target, reviewed_at := Some now\<rparr>)
                                 else (k, r)) (submissions st)\<rparr>)
         \<and> decided target \<noteq> Pending"
proof -
  from assms(1) have t: "target \<in> set [JStr ''approved'', JStr ''rejected'', JStr ''deleted'']"
    "target \<in> set [JStr ''approved'', JStr ''rejected'']" "target \<noteq> JStr ''deleted''"
    by auto
  have "decided target \<noteq> Pending"
    by (simp add: decided_def)
  with t assms(2) show ?thesis
    by (simp add: review_POST_def review_POST_earlier_def update_status_def del: set_simps)
qed

theorem review_decision_sets_status_and_timestamp_witness:
  "review_POST no_text_key admin_cwd 300 (JNum 1) (JStr ''approved'')
     (empty_state\<lparr>submissions := [(1, url_submission 100), (2, url_submission 150)]\<rparr>)
   = (ok, empty_state\<lparr>submissions :=
            [(1, (url_submission 100)\<lparr>status := Approved, reviewed_at := Some 300\<rparr>),
             (2, url_submission 150)]\<rparr>)"
  using review_decision_sets_status_and_timestamp
    [of "JStr ''approved''" 1 no_text_key admin_cwd 300
        "empty_state\<lparr>submissions := [(1, url_submission 100), (2, url_submission 150)]\<rparr>"]
  by (simp add: decided_def)

lemma rm_rf_unhindered:
  "removal_unhindered fs p \<Longrightarrow> rm_rf fs p = Some (\<lambda>q. if prefix p q then None else fs q)"
  unfolding removal_unhindered_def rm_rf_def
  by (auto simp: list_all_iff list_ex_iff split: option.splits node.splits)

lemma rm_rf_hindered: "\<not> removal_unhindered fs p \<Longrightarrow> rm_rf fs p = None"
  unfolding removal_unhindered_def rm_rf_def
  by (auto simp: list_all_iff list_ex_iff split: option.splits node.splits)

lemma removal_unhindered_after:
  assumes "removal_unhindered fs p"
  shows "removal_unhindered (\<lambda>q. if prefix p q then None else fs q) p"
  using assms unfolding removal_unhindered_def
  by (auto simp: list_all_iff split: option.splits node.splits if_splits)

lemma staged_removal_unhindered:
  "removal_unhindered (files staged_state) [''srv'', ''cs-nades'', ''staging'', ''7'']"
  "removal_unhindered (files staged_state) [''srv'', ''cs-nades'', ''staging'', ''999'']"
  "removal_unhindered (files staged_state) [''srv'', ''cs-nades'', ''cs-nades.db'']"
  by (simp_all add: removal_unhindered_def path_accepted_def utf8_def staged_state_def empty_state_def)

text \<open>
  Where the removal of the staging directory is hindered, a review request \<open>deleted\<close>
  ends in the exception of the removal, and the row stays.
\<close>

lemma review_deleted_throws_when_hindered:
  assumes "truthy v" and "\<not> removal_unhindered (files st) (admin_stagingDir cwd v)"
  shows "review_POST text_key cwd now v (JStr ''deleted'') st = (Thrown FilesystemError, st)"
  using assms by (simp add: review_POST_def rm_rf_hindered)

text \<open>
  C2. Let \<open>n\<close> be a submission identifier: a non-zero number, of magnitude below \<open>10^21\<close>
  as every row identifier is. The staging directory of \<open>n\<close> for the review endpoint is
  the entry named \<open>String(n)\<close> of the staging root beside the admin directory. Where
  nothing stands in the way of removing it (the platform takes its path, and no regular
  file stands above it), a review request \<open>deleted\<close> for \<open>n\<close> succeeds; afterwards
  \<open>submissions\<close> has no row \<open>n\<close> and nothing exists at or below that directory; where
  nothing existed there before, the filesystem is left as it was and the request still
  succeeds; and the same request issued again succeeds and changes nothing.
\<close>

theorem review_deleted_removes_row_and_staging:
  assumes "n \<noteq> 0" and "\<bar>n\<bar> < 10 ^ 21"
    and "removal_unhindered (files st) (admin_stagingDir cwd (JNum n))"
  shows "admin_stagingDir cwd (JNum n) = butlast cwd @ [''staging'', js_String (JNum n)]
     \<and> fst (review_POST text_key cwd now (JNum n) (JStr ''deleted'') st) = ok
     \<and> n \<notin> fst ` set (submissions (snd (review_POST text_key cwd now (JNum n) (JStr ''deleted'') st)))
     \<and> (\<forall>q. prefix (admin_stagingDir cwd (JNum n)) q \<longrightarrow>
              files (snd (review_POST text_key cwd now (JNum n) (JStr ''deleted'') st)) q = None)
     \<and> ((\<forall>q. prefix (admin_stagingDir cwd (JNum n)) q \<longrightarrow> files st q = None) \<longrightarrow>
          files (snd (review_POST text_key cwd now (JNum n) (JStr ''deleted'') st)) = files st)
     \<and> review_POST text_key cwd now' (JNum n) (JStr ''deleted'')
          (snd (review_POST text_key cwd now (JNum n) (JStr ''deleted'') st))
        = (ok, snd (review_POST text_key cwd now (JNum n) (JStr ''deleted'') st))"
proof -
  define dir where "dir = admin_stagingDir cwd (JNum n)"
  define fs1 where "fs1 = (\<lambda>q. if prefix dir q then None else files st q)"
  have t: "truthy (JNum n)" using assms(1) by simp
  have r1: "rm_rf (files st) dir = Some fs1"
    unfolding fs1_def dir_def by (rule rm_rf_unhindered [OF assms(3)])
  have u: "removal_unhindered fs1 dir"
    unfolding fs1_def dir_def by (rule removal_unhindered_after [OF assms(3)])
  have r2: "rm_rf fs1 dir = Some fs1"
    unfolding rm_rf_unhindered [OF u] by (simp add: fs1_def fun_eq_iff)
  define st1 where
    "st1 = st\<lparr>files := fs1, submissions := delete_rows text_key (JNum n) (submissions st)\<rparr>"
  have run: "review_POST text_key cwd now (JNum n) (JStr ''deleted'') st = (ok, st1)"
    using t r1 by (simp add: review_POST_def dir_def [symmetric] st1_def)
  have again: "review_POST text_key cwd now' (JNum n) (JStr ''deleted'') st1 = (ok, st1)"
    using t r2 by (simp add: review_POST_def dir_def [symmetric] delete_rows_def st1_def)
  have gone: "n \<notin> fst ` set (submissions st1)"
    by (auto simp: delete_rows_def st1_def)
  have below: "\<forall>q. prefix dir q \<longrightarrow> files st1 q = None"
    by (simp add: st1_def fs1_def)
  have same: "(\<forall>q. prefix dir q \<longrightarrow> files st q = None) \<longrightarrow> files st1 = files st"
    by (auto simp: st1_def fs1_def fun_eq_iff)
  have loc: "dir = butlast cwd @ [''staging'', js_String (JNum n)]"
    unfolding dir_def by (rule admin_stagingDir_JNum)
  show ?thesis
    unfolding dir_def [symmetric] run fst_conv snd_conv again
    using loc gone below same by blast
qed

theorem review_deleted_removes_row_and_staging_witness:
  "(7 :: int) \<noteq> 0 \<and> \<bar>7 :: int\<bar> < 10 ^ 21
   \<and> removal_unhindered (files staged_state) (admin_stagingDir admin_cwd (JNum 7))
   \<and> fst (review_POST no_text_key admin_cwd 300 (JNum 7) (JStr ''deleted'') staged_state) = ok
   \<and> 7 \<notin> fst ` set (submissions (snd (review_POST no_text_key admin_cwd 300 (JNum 7) (JStr ''deleted'') staged_state)))
   \<and> files staged_state [''srv'', ''cs-nades'', ''staging'', ''7'', ''position.jpg''] = Some (Regular ''jpeg'')
   \<and> files (snd (review_POST no_text_key admin_cwd 300 (JNum 7) (JStr ''deleted'') staged_state))
        [''srv'', ''cs-nades'', ''staging'', ''7'', ''position.jpg''] = None
   \<and> files (snd (review_POST no_text_key admin_cwd 300 (JNum 7) (JStr ''deleted'') staged_state))
        [''srv'', ''cs-nades'', ''staging'', ''7''] = None
   \<and> review_POST no_text_key admin_cwd 400 (JNum 7) (JStr ''deleted'')
        (snd (review_POST no_text_key admin_cwd 300 (JNum 7) (JStr ''deleted'') staged_state))
      = (ok, snd (review_POST no_text_key admin_cwd 300 (JNum 7) (JStr ''deleted'') staged_state))"
proof -
  have n: "(7 :: int) \<noteq> 0" and m: "\<bar>7 :: int\<bar> < 10 ^ 21" by simp_all
  have u: "removal_unhindered (files staged_state) (admin_stagingDir admin_cwd (JNum 7))"
    unfolding staged_dir by (rule staged_removal_unhindered)
  note t = review_deleted_removes_row_and_staging
    [OF n m u, where text_key = no_text_key and now = 300 and now' = 400]
  have p: "prefix (admin_stagingDir admin_cwd (JNum 7)) [''srv'', ''cs-nades'', ''staging'', ''7'', ''position.jpg'']"
    "prefix (admin_stagingDir admin_cwd (JNum 7)) [''srv'', ''cs-nades'', ''staging'', ''7'']"
    by (simp_all add: staged_dir)
  have f: "files staged_state [''srv'', ''cs-nades'', ''staging'', ''7'', ''position.jpg''] = Some (Regular ''jpeg'')"
    by (simp add: staged_state_def empty_state_def)
  from t p f n m u show ?thesis by blast
qed

text \<open>
  C9. The request \<open>{id: "../cs-nades.db", status: "deleted"}\<close> passes the endpoint's
  validation and removes the site's database file, a path outside the staging root.
\<close>

theorem review_deleted_escapes_staging_root:
  "fst (review_POST no_text_key admin_cwd 300 (JStr ''../cs-nades.db'') (JStr ''deleted'') staged_state) = ok
   \<and> files staged_state [''srv'', ''cs-nades'', ''cs-nades.db''] = Some (Regular ''SQLite format 3'')
   \<and> files (snd (review_POST no_text_key admin_cwd 300 (JStr ''../cs-nades.db'') (JStr ''deleted'') staged_state))
        [''srv'', ''cs-nades'', ''cs-nades.db''] = None
   \<and> \<not> prefix (butlast admin_cwd @ [''staging'']) [''srv'', ''cs-nades'', ''cs-nades.db'']"
proof -
  have "\<not> prefix (butlast admin_cwd @ [''staging'']) [''srv'', ''cs-nades'', ''cs-nades.db'']"
    by (simp add: admin_cwd_def)
  then show ?thesis
    by (simp add: review_POST_def escape_dir rm_rf_unhindered [OF staged_removal_unhindered(3)])
      (simp add: staged_state_def empty_state_def)
qed

theorem review_deleted_escapes_staging_root_witness:
  "files (snd (review_POST no_text_key admin_cwd 300 (JStr ''../cs-nades.db'') (JStr ''deleted'') staged_state))
     [''srv'', ''cs-nades'', ''cs-nades.db'']
   \<noteq> files staged_state [''srv'', ''cs-nades'', ''cs-nades.db'']"
  using review_deleted_escapes_staging_root by simp

text \<open>
  C3, as the claim states it, fails: for an identifier that names no submission the
  endpoint answers 200, not a client error, in both revisions.
\<close>

theorem review_accepts_unknown_identifier:
  "review_POST no_text_key admin_cwd 300 (JNum 999) (JStr ''approved'') empty_state
     = (Sent (Response 200 JsonOk None), empty_state)
   \<and> review_POST_earlier no_text_key 300 (JNum 999) (JStr ''approved'') empty_state
     = (Sent (Response 200 JsonOk None), empty_state)
   \<and> 999 \<notin> fst ` set (submissions empty_state)"
  by (simp add: review_POST_def review_POST_earlier_def update_status_def ok_def empty_state_def)

lemma update_status_no_match:
  "\<forall>k \<in> fst ` set rows. \<not> row_matches text_key v k \<Longrightarrow> update_status text_key now s v rows = rows"
  unfolding update_status_def by (induction rows) auto

lemma delete_rows_no_match:
  "\<forall>k \<in> fst ` set rows. \<not> row_matches text_key v k \<Longrightarrow> delete_rows text_key v rows = rows"
  unfolding delete_rows_def by (induction rows) auto

text \<open>
  C3, amended. A review request whose \<open>id\<close> is falsy, or whose status is not one the
  revision supports, is answered 400 \<open>Invalid data\<close> and leaves the state as it was. A
  request \<open>approved\<close> or \<open>rejected\<close> whose \<open>id\<close> is a number or a string that selects no
  row is answered 200 and leaves the state as it was. A request \<open>deleted\<close> whose \<open>id\<close> is
  a non-zero number of magnitude below \<open>10^21\<close> that is the identifier of no row, where
  nothing stands in the way of removing the staging directory of that number, is
  answered 200: no row is deleted, and nothing but what was at or below that directory
  is removed.
\<close>

theorem review_rejects_invalid_data_and_ignores_unknown:
  "(\<not> truthy v \<or> target \<notin> set [JStr ''approved'', JStr ''rejected'', JStr ''deleted''] \<longrightarrow>
      review_POST text_key cwd now v target st
        = (Sent (Response 400 (JsonError ''Invalid data'') None), st))
   \<and> (\<not> truthy v \<or> target \<notin> set [JStr ''approved'', JStr ''rejected''] \<longrightarrow>
      review_POST_earlier text_key now v target st
        = (Sent (Response 400 (JsonError ''Invalid data'') None), st))
   \<and> (truthy v \<and> bindable v \<and> (\<forall>k \<in> fst ` set (submissions st). \<not> row_matches text_key v k)
        \<and> target \<in> set [JStr ''approved'', JStr ''rejected''] \<longrightarrow>
           review_POST text_key cwd now v target st = (Sent (Response 200 JsonOk None), st)
           \<and> review_POST_earlier text_key now v target st = (Sent (Response 200 JsonOk None), st))
   \<and> (n \<noteq> 0 \<and> \<bar>n\<bar> < 10 ^ 21 \<and> n \<notin> fst ` set (submissions st)
        \<and> removal_unhindered (files st) (admin_stagingDir cwd (JNum n)) \<longrightarrow>
           review_POST text_key cwd now (JNum n) (JStr ''deleted'') st
             = (Sent (Response 200 JsonOk None),
                st\<lparr>files := \<lambda>q. if prefix (butlast cwd @ [''staging'', js_String (JNum n)]) q
                                  then None else files st q\<rparr>))"
proof -
  have a: "review_POST text_key cwd now v target st = (invalid_data, st)"
    if "\<not> truthy v \<or> target \<notin> set [JStr ''approved'', JStr ''rejected'', JStr ''deleted'']"
    using that unfolding review_POST_def by (simp del: set_simps)
  have b: "review_POST_earlier text_key now v target st = (invalid_data, st)"
    if "\<not> truthy v \<or> target \<notin> set [JStr ''approved'', JStr ''rejected'']"
    using that unfolding review_POST_earlier_def by (simp del: set_simps)
  have c: "review_POST text_key cwd now v target st = (ok, st)
           \<and> review_POST_earlier text_key now v target st = (ok, st)"
    if "truthy v" "bindable v" "\<forall>k \<in> fst ` set (submissions st). \<not> row_matches text_key v k"
       "target \<in> set [JStr ''approved'', JStr ''rejected'']"
  proof -
    from that(4) have "target \<in> set [JStr ''approved'', JStr ''rejected'', JStr ''deleted'']"
      "target \<noteq> JStr ''deleted''" by auto
    with that show ?thesis
      unfolding review_POST_def review_POST_earlier_def
      by (simp add: update_status_no_match del: set_simps)
  qed
  have d: "review_POST text_key cwd now (JNum n) (JStr ''deleted'') st
             = (ok, st\<lparr>files := \<lambda>q. if prefix (butlast cwd @ [''staging'', js_String (JNum n)]) q
                                      then None else files st q\<rparr>)"
    if "n \<noteq> 0" "n \<notin> fst ` set (submissions st)"
       "removal_unhindered (files st) (admin_stagingDir cwd (JNum n))"
  proof -
    from that(2) have "\<forall>k \<in> fst ` set (submissions st). \<not> row_matches text_key (JNum n) k"
      by auto
    with that(1) rm_rf_unhindered [OF that(3)] show ?thesis
      unfolding review_POST_def admin_stagingDir_JNum [symmetric]
      by (simp add: delete_rows_no_match)
  qed
  from a b c d show ?thesis
    unfolding invalid_data_def ok_def by blast
qed

theorem review_rejects_invalid_data_and_ignores_unknown_witness:
  "review_POST no_text_key admin_cwd 300 (JNum 0) (JStr ''approved'') staged_state
     = (Sent (Response 400 (JsonError ''Invalid data'') None), staged_state)
   \<and> review_POST no_text_key admin_cwd 300 (JNum 7) (JStr ''pending'') staged_state
     = (Sent (Response 400 (JsonError ''Invalid data'') None), staged_state)
   \<and> review_POST_earlier no_text_key 300 (JNum 7) (JStr ''deleted'') staged_state
     = (Sent (Response 400 (JsonError ''Invalid data'') None), staged_state)
   \<and> review_POST no_text_key admin_cwd 300 (JNum 999) (JStr ''rejected'') staged_state
     = (Sent (Response 200 JsonOk None), staged_state)
   \<and> review_POST_earlier no_text_key 300 (JNum 999) (JStr ''rejected'') staged_state
     = (Sent (Response 200 JsonOk None), staged_state)
   \<and> removal_unhindered (files staged_state) (admin_stagingDir admin_cwd (JNum 999))
   \<and> fst (review_POST no_text_key admin_cwd 300 (JNum 999) (JStr ''deleted'') staged_state)
     = Sent (Response 200 JsonOk None)
   \<and> submissions (snd (review_POST no_text_key admin_cwd 300 (JNum 999) (JStr ''deleted'') staged_state))
     = submissions staged_state
   \<and> files (snd (review_POST no_text_key admin_cwd 300 (JNum 999) (JStr ''deleted'') staged_state))
       [''srv'', ''cs-nades'', ''staging'', ''7'', ''position.jpg'']
     = Some (Regular ''jpeg'')"
proof -
  note t = review_rejects_invalid_data_and_ignores_unknown
  have u: "\<forall>k \<in> fst ` set (submissions staged_state). \<not> row_matches no_text_key (JNum 999) k"
    "999 \<notin> fst ` set (submissions staged_state)"
    by (simp_all add: staged_state_def empty_state_def)
  have s: "admin_stagingDir admin_cwd (JNum 999) = [''srv'', ''cs-nades'', ''staging'', ''999'']"
    by code_simp
  have r: "removal_unhindered (files staged_state) (admin_stagingDir admin_cwd (JNum 999))"
    unfolding s by (rule staged_removal_unhindered)
  have j: "js_String (JNum 999) = ''999''"
    by code_simp
  have "review_POST no_text_key admin_cwd 300 (JNum 0) (JStr ''approved'') staged_state
     = (Sent (Response 400 (JsonError ''Invalid data'') None), staged_state)"
    using t [of "JNum 0" "JStr ''approved''" no_text_key admin_cwd 300 staged_state] by simp
  moreover have "review_POST no_text_key admin_cwd 300 (JNum 7) (JStr ''pending'') staged_state
     = (Sent (Response 400 (JsonError ''Invalid data'') None), staged_state)"
    using t [of "JNum 7" "JStr ''pending''" no_text_key admin_cwd 300 staged_state] by simp
  moreover have "review_POST_earlier no_text_key 300 (JNum 7) (JStr ''deleted'') staged_state
     = (Sent (Response 400 (JsonError ''Invalid data'') None), staged_state)"
    using t [of "JNum 7" "JStr ''deleted''" no_text_key admin_cwd 300 staged_state] by simp
  moreover have "review_POST no_text_key admin_cwd 300 (JNum 999) (JStr ''rejected'') staged_state
     = (Sent (Response 200 JsonOk None), staged_state)
   \<and> review_POST_earlier no_text_key 300 (JNum 999) (JStr ''rejected'') staged_state
     = (Sent (Response 200 JsonOk None), staged_state)"
    using t [of "JNum 999" "JStr ''rejected''" no_text_key admin_cwd 300 staged_state] u by simp
  moreover have "review_POST no_text_key admin_cwd 300 (JNum 999) (JStr ''deleted'') staged_state
     = (Sent (Response 200 JsonOk None),
        staged_state\<lparr>files := \<lambda>q. if prefix [''srv'', ''cs-nades'', ''staging'', ''999''] q
                                     then None else files staged_state q\<rparr>)"
    using t [where n = 999 and text_key = no_text_key and cwd = admin_cwd and now = 300
        and st = staged_state] u r
    by (simp add: admin_cwd_def j del: js_String.simps)
  moreover have "files staged_state [''srv'', ''cs-nades'', ''staging'', ''7'', ''position.jpg'']
     = Some (Regular ''jpeg'')"
    by (simp add: staged_state_def empty_state_def)
  ultimately show ?thesis using r by simp
qed


subsection \<open>Bookmark toggle\<close>

lemma forged_hash: "getAccountHash (Some forged_cookie) = Some (replicate 64 CHR ''a'')"
  by code_simp

lemma has_bookmark_keys: "has_bookmark st h s = ((h, s) \<in> bookmark_keys st)"
  unfolding has_bookmark_def bookmark_keys_def by (induction "bookmarks st") (auto simp: list_ex_iff)

text \<open>
  C6, as the claim states it, fails: with a cookie that carries a well-formed identifier
  for which \<open>accounts\<close> has no row, and a pair that is absent, the insert is refused by
  the foreign key: the handler throws, and the response is not \<open>bookmarked = true\<close>.
\<close>

theorem bookmark_toggle_unknown_account_fails:
  "bookmarks_POST 300 (Some forged_cookie) (Some ''mirage-window-smoke'') empty_state
     = (Thrown ForeignKeyViolation, empty_state)
   \<and> getAccountHash (Some forged_cookie) = Some (replicate 64 CHR ''a'')
   \<and> (replicate 64 CHR ''a'', ''mirage-window-smoke'') \<notin> bookmark_keys empty_state"
  by (simp add: bookmarks_POST_def forged_hash truthy_str_def has_bookmark_def bookmark_keys_def empty_state_def)

lemma toggle_cases:
  assumes "getAccountHash cookie = Some h" and "s \<noteq> []"
  shows "bookmarks_POST now cookie (Some s) st =
     (if (h, s) \<in> bookmark_keys st
      then (Sent (Response 200 (JsonBookmarked False) None),
            st\<lparr>bookmarks := filter (\<lambda>b. \<not> (fst b = h \<and> fst (snd b) = s)) (bookmarks st)\<rparr>)
      else if h \<in> fst ` set (accounts st)
      then (Sent (Response 200 (JsonBookmarked True) None), st\<lparr>bookmarks := bookmarks st @ [(h, s, now)]\<rparr>)
      else (Thrown ForeignKeyViolation, st))"
  using assms by (simp add: bookmarks_POST_def truthy_str_def has_bookmark_keys)

lemma toggle_present:
  assumes "getAccountHash cookie = Some h" and "s \<noteq> []" and "(h, s) \<in> bookmark_keys st"
  obtains st1 where
    "bookmarks_POST now cookie (Some s) st = (Sent (Response 200 (JsonBookmarked False) None), st1)"
    "bookmark_keys st1 = bookmark_keys st - {(h, s)}"
    "accounts st1 = accounts st" "submissions st1 = submissions st" "files st1 = files st"
proof
  let ?st1 = "st\<lparr>bookmarks := filter (\<lambda>b. \<not> (fst b = h \<and> fst (snd b) = s)) (bookmarks st)\<rparr>"
  show "bookmarks_POST now cookie (Some s) st = (Sent (Response 200 (JsonBookmarked False) None), ?st1)"
    using assms(3) by (simp only: toggle_cases [OF assms(1,2)] if_True)
  show "bookmark_keys ?st1 = bookmark_keys st - {(h, s)}"
    unfolding bookmark_keys_def by auto
qed simp_all

lemma toggle_absent:
  assumes "getAccountHash cookie = Some h" and "s \<noteq> []" and "(h, s) \<notin> bookmark_keys st"
    and "h \<in> fst ` set (accounts st)"
  obtains st1 where
    "bookmarks_POST now cookie (Some s) st = (Sent (Response 200 (JsonBookmarked True) None), st1)"
    "bookmark_keys st1 = insert (h, s) (bookmark_keys st)"
    "accounts st1 = accounts st" "submissions st1 = submissions st" "files st1 = files st"
proof
  let ?st1 = "st\<lparr>bookmarks := bookmarks st @ [(h, s, now)]\<rparr>"
  show "bookmarks_POST now cookie (Some s) st = (Sent (Response 200 (JsonBookmarked True) None), ?st1)"
    using assms(3,4) by (simp only: toggle_cases [OF assms(1,2)] if_True if_False)
  show "bookmark_keys ?st1 = insert (h, s) (bookmark_keys st)"
    unfolding bookmark_keys_def by auto
qed simp_all

text \<open>
  C6, amended. Without an account identifier in the cookie the toggle answers 401 and
  mutates nothing; with an absent or empty slug it answers 400 and mutates nothing.
  Otherwise, when \<open>accounts\<close> has a row for the identifier: the response is
  \<open>bookmarked = false\<close> and the pair is deleted if it was present, \<open>bookmarked = true\<close>
  and the pair is inserted if it was absent; the flag is the pair's presence afterwards;
  no other pair and no other table or file changes; and a second toggle answers the
  opposite flag and restores the original set of pairs. A pair that is present is deleted
  whether or not \<open>accounts\<close> has a row for the identifier; a pair that is absent, for an
  identifier without a row in \<open>accounts\<close>, is not inserted: the handler throws and
  mutates nothing.
\<close>

theorem bookmark_toggle:
  "(getAccountHash cookie = None \<longrightarrow>
      bookmarks_POST now cookie body_slug st = (Sent (Response 401 (JsonError ''Not logged in'') None), st))
   \<and> (getAccountHash cookie = Some h \<and> \<not> truthy_str body_slug \<longrightarrow>
      bookmarks_POST now cookie body_slug st = (Sent (Response 400 (JsonError ''Missing slug'') None), st))
   \<and> (getAccountHash cookie = Some h \<and> s \<noteq> [] \<and> h \<in> fst ` set (accounts st) \<longrightarrow>
      (let (r1, st1) = bookmarks_POST now cookie (Some s) st;
           (r2, st2) = bookmarks_POST now' cookie (Some s) st1
       in r1 = Sent (Response 200 (JsonBookmarked ((h, s) \<notin> bookmark_keys st)) None)
          \<and> ((h, s) \<in> bookmark_keys st1) = ((h, s) \<notin> bookmark_keys st)
          \<and> bookmark_keys st1 = (if (h, s) \<in> bookmark_keys st then bookmark_keys st - {(h, s)}
                                 else insert (h, s) (bookmark_keys st))
          \<and> accounts st1 = accounts st \<and> submissions st1 = submissions st \<and> files st1 = files st
          \<and> r2 = Sent (Response 200 (JsonBookmarked ((h, s) \<in> bookmark_keys st)) None)
          \<and> bookmark_keys st2 = bookmark_keys st))
   \<and> (getAccountHash cookie = Some h \<and> s \<noteq> [] \<and> (h, s) \<in> bookmark_keys st \<longrightarrow>
        fst (bookmarks_POST now cookie (Some s) st) = Sent (Response 200 (JsonBookmarked False) None)
      \<and> bookmark_keys (snd (bookmarks_POST now cookie (Some s) st)) = bookmark_keys st - {(h, s)})
   \<and> (getAccountHash cookie = Some h \<and> s \<noteq> [] \<and> (h, s) \<notin> bookmark_keys st
        \<and> h \<notin> fst ` set (accounts st) \<longrightarrow>
        bookmarks_POST now cookie (Some s) st = (Thrown ForeignKeyViolation, st))"
proof -
  have d: "fst (bookmarks_POST now cookie (Some s) st) = Sent (Response 200 (JsonBookmarked False) None)
      \<and> bookmark_keys (snd (bookmarks_POST now cookie (Some s) st)) = bookmark_keys st - {(h, s)}"
    if "getAccountHash cookie = Some h" "s \<noteq> []" "(h, s) \<in> bookmark_keys st"
    using toggle_present [OF that, of now] by (metis fst_conv snd_conv)
  have e: "bookmarks_POST now cookie (Some s) st = (Thrown ForeignKeyViolation, st)"
    if "getAccountHash cookie = Some h" "s \<noteq> []" "(h, s) \<notin> bookmark_keys st"
      "h \<notin> fst ` set (accounts st)"
    using that(3,4) by (simp only: toggle_cases [OF that(1,2)] if_False)
  have a: "bookmarks_POST now cookie body_slug st = (Sent (Response 401 (JsonError ''Not logged in'') None), st)"
    if "getAccountHash cookie = None"
    using that by (simp add: bookmarks_POST_def)
  have b: "bookmarks_POST now cookie body_slug st = (Sent (Response 400 (JsonError ''Missing slug'') None), st)"
    if "getAccountHash cookie = Some h" "\<not> truthy_str body_slug"
    using that by (simp add: bookmarks_POST_def)
  have c: "(let (r1, st1) = bookmarks_POST now cookie (Some s) st;
           (r2, st2) = bookmarks_POST now' cookie (Some s) st1
       in r1 = Sent (Response 200 (JsonBookmarked ((h, s) \<notin> bookmark_keys st)) None)
          \<and> ((h, s) \<in> bookmark_keys st1) = ((h, s) \<notin> bookmark_keys st)
          \<and> bookmark_keys st1 = (if (h, s) \<in> bookmark_keys st then bookmark_keys st - {(h, s)}
                                 else insert (h, s) (bookmark_keys st))
          \<and> accounts st1 = accounts st \<and> submissions st1 = submissions st \<and> files st1 = files st
          \<and> r2 = Sent (Response 200 (JsonBookmarked ((h, s) \<in> bookmark_keys st)) None)
          \<and> bookmark_keys st2 = bookmark_keys st)"
    if g: "getAccountHash cookie = Some h" and s: "s \<noteq> []" and acc: "h \<in> fst ` set (accounts st)"
  proof (cases "(h, s) \<in> bookmark_keys st")
    case True
    from toggle_present [OF g s True, of now] obtain st1 where
      r1: "bookmarks_POST now cookie (Some s) st = (Sent (Response 200 (JsonBookmarked False) None), st1)"
      and k1: "bookmark_keys st1 = bookmark_keys st - {(h, s)}"
      and u1: "accounts st1 = accounts st" "submissions st1 = submissions st" "files st1 = files st"
      by blast
    from k1 have n1: "(h, s) \<notin> bookmark_keys st1" by simp
    from acc u1 have acc1: "h \<in> fst ` set (accounts st1)" by simp
    from toggle_absent [OF g s n1 acc1, of now'] obtain st2 where
      r2: "bookmarks_POST now' cookie (Some s) st1 = (Sent (Response 200 (JsonBookmarked True) None), st2)"
      and k2: "bookmark_keys st2 = insert (h, s) (bookmark_keys st1)"
      by blast
    from True k1 k2 have "bookmark_keys st2 = bookmark_keys st" by auto
    with True k1 n1 u1 show ?thesis by (simp add: r1 r2)
  next
    case False
    from toggle_absent [OF g s False acc, of now] obtain st1 where
      r1: "bookmarks_POST now cookie (Some s) st = (Sent (Response 200 (JsonBookmarked True) None), st1)"
      and k1: "bookmark_keys st1 = insert (h, s) (bookmark_keys st)"
      and u1: "accounts st1 = accounts st" "submissions st1 = submissions st" "files st1 = files st"
      by blast
    from k1 have n1: "(h, s) \<in> bookmark_keys st1" by simp
    from toggle_present [OF g s n1, of now'] obtain st2 where
      r2: "bookmarks_POST now' cookie (Some s) st1 = (Sent (Response 200 (JsonBookmarked False) None), st2)"
      and k2: "bookmark_keys st2 = bookmark_keys st1 - {(h, s)}"
      by blast
    from False k1 k2 have "bookmark_keys st2 = bookmark_keys st" by auto
    with False k1 n1 u1 show ?thesis by (simp add: r1 r2)
  qed
  from a b c d e show ?thesis by blast
qed


theorem bookmark_toggle_witness:
  "bookmarks_POST 300 None (Some ''mirage-window-smoke'') member_state
     = (Sent (Response 401 (JsonError ''Not logged in'') None), member_state)
   \<and> bookmarks_POST 300 (Some forged_cookie) None member_state
     = (Sent (Response 400 (JsonError ''Missing slug'') None), member_state)
   \<and> fst (bookmarks_POST 300 (Some forged_cookie) (Some ''mirage-window-smoke'') member_state)
     = Sent (Response 200 (JsonBookmarked True) None)
   \<and> bookmark_keys (snd (bookmarks_POST 300 (Some forged_cookie) (Some ''mirage-window-smoke'') member_state))
     = {(replicate 64 CHR ''a'', ''mirage-window-smoke'')}
   \<and> fst (bookmarks_POST 400 (Some forged_cookie) (Some ''mirage-window-smoke'')
           (snd (bookmarks_POST 300 (Some forged_cookie) (Some ''mirage-window-smoke'') member_state)))
     = Sent (Response 200 (JsonBookmarked False) None)
   \<and> bookmark_keys (snd (bookmarks_POST 400 (Some forged_cookie) (Some ''mirage-window-smoke'')
           (snd (bookmarks_POST 300 (Some forged_cookie) (Some ''mirage-window-smoke'') member_state))))
     = {}"
proof -
  note t = bookmark_toggle
  have n: "getAccountHash None = None" by (simp add: getAccountHash_def)
  have k: "bookmark_keys member_state = {}" by (simp add: bookmark_keys_def member_state_def empty_state_def)
  have a: "replicate 64 CHR ''a'' \<in> fst ` set (accounts member_state)"
    by (simp add: member_state_def empty_state_def)
  have "bookmarks_POST 300 None (Some ''mirage-window-smoke'') member_state
     = (Sent (Response 401 (JsonError ''Not logged in'') None), member_state)"
    using t [of None 300 "Some ''mirage-window-smoke''" member_state] n by simp
  moreover have "bookmarks_POST 300 (Some forged_cookie) None member_state
     = (Sent (Response 400 (JsonError ''Missing slug'') None), member_state)"
    using t [of "Some forged_cookie" 300 None member_state "replicate 64 CHR ''a''"] forged_hash
    by (simp add: truthy_str_def)
  moreover have "fst (bookmarks_POST 300 (Some forged_cookie) (Some ''mirage-window-smoke'') member_state)
     = Sent (Response 200 (JsonBookmarked True) None)
   \<and> bookmark_keys (snd (bookmarks_POST 300 (Some forged_cookie) (Some ''mirage-window-smoke'') member_state))
     = {(replicate 64 CHR ''a'', ''mirage-window-smoke'')}
   \<and> fst (bookmarks_POST 400 (Some forged_cookie) (Some ''mirage-window-smoke'')
           (snd (bookmarks_POST 300 (Some forged_cookie) (Some ''mirage-window-smoke'') member_state)))
     = Sent (Response 200 (JsonBookmarked False) None)
   \<and> bookmark_keys (snd (bookmarks_POST 400 (Some forged_cookie) (Some ''mirage-window-smoke'')
           (snd (bookmarks_POST 300 (Some forged_cookie) (Some ''mirage-window-smoke'') member_state))))
     = {}"
    using t [of "Some forged_cookie" 300 "Some ''mirage-window-smoke''" member_state
               "replicate 64 CHR ''a''" "''mirage-window-smoke''" 400] forged_hash a k
    by (simp add: case_prod_unfold Let_def)
  ultimately show ?thesis by blast
qed


subsection \<open>Login\<close>

lemma trim_trim: "trim (trim s) = trim s"
proof -
  define t where "t = dropWhile is_space s"
  define u where "u = rev (dropWhile is_space (rev t))"
  have split: "t = u @ rev (takeWhile is_space (rev t))"
    unfolding u_def by (metis rev_append rev_rev_ident takeWhile_dropWhile_id)
  have "dropWhile is_space u = u"
  proof (cases "u = []")
    case True
    then show ?thesis by simp
  next
    case False
    with split have "t \<noteq> []" and "hd t = hd u" by (auto, metis hd_append2)
    moreover from \<open>t \<noteq> []\<close> have "\<not> is_space (hd t)"
      unfolding t_def by (rule hd_dropWhile)
    ultimately show ?thesis using False by (simp add: dropWhile_eq_self_iff)
  qed
  then have "trim u = rev (dropWhile is_space (rev u))"
    by (simp add: trim_def)
  also have "\<dots> = u"
    by (simp add: u_def)
  finally show ?thesis
    by (simp add: trim_def u_def t_def)
qed

lemma hashNickname_trim: "hashNickname (trim s) = hashNickname s"
  by (simp add: hashNickname_def trim_trim)

lemma hashNickname_shape: "length (hashNickname s) = 64 \<and> list_all is_hex_lower (hashNickname s)"
  unfolding hashNickname_def is_hex_lower_def list_all_iff
  by (simp add: length_digest_hex) (use set_digest_hex in blast)

lemma match_account_issued:
  assumes "length h = 64" and "list_all is_hex_lower h"
  shows "match_account (''nades_account='' @ h @ rest) = Some h"
  using assms by simp

text \<open>
  C8. A nickname that is absent, or shorter than 3 characters after trimming, is answered
  400 and the store is left as it was. For a nickname of at least 3 characters after
  trimming, login answers 200 with the slugs of all bookmarks of the identifier
  \<open>hashNickname n\<close> and a cookie from which \<open>getAccountHash\<close> reads that identifier; it
  adds the account row only if there was none (so distinct account keys stay distinct);
  and a second login with the same nickname gives the same response and leaves the store
  as the first login left it.
\<close>

theorem login_validates_and_is_idempotent:
  "((body_nickname = None \<or> body_nickname = Some n) \<and> length (trim n) < 3 \<longrightarrow>
      login_POST now body_nickname st
        = (Sent (Response 400 (JsonError ''Nickname must be at least 3 characters'') None), st))
   \<and> (3 \<le> length (trim n) \<longrightarrow>
      (let (r1, st1) = login_POST now (Some n) st;
           (r2, st2) = login_POST now' (Some n) st1
       in (\<exists>bs c. r1 = Sent (Response 200 (JsonOkBookmarks bs) (Some c))
             \<and> set bs = {s. (hashNickname n, s) \<in> bookmark_keys st}
             \<and> c = ''nades_account='' @ hashNickname n @ ''; Path=/; HttpOnly; SameSite=Lax; Max-Age=31536000''
             \<and> getAccountHash (Some c) = Some (hashNickname n))
          \<and> accounts st1 = (if hashNickname n \<in> fst ` set (accounts st) then accounts st
                            else accounts st @ [(hashNickname n, now)])
          \<and> (distinct (map fst (accounts st)) \<longrightarrow> distinct (map fst (accounts st1)))
          \<and> bookmarks st1 = bookmarks st \<and> submissions st1 = submissions st \<and> files st1 = files st
          \<and> r2 = r1 \<and> st2 = st1))"
proof -
  have a: "login_POST now body_nickname st
        = (Sent (Response 400 (JsonError ''Nickname must be at least 3 characters'') None), st)"
    if "body_nickname = None \<or> body_nickname = Some n" and "length (trim n) < 3"
    using that by (auto simp: login_POST_def truthy_str_def)
  define h where "h = hashNickname n"
  let ?c = "''nades_account='' @ h @ ''; Path=/; HttpOnly; SameSite=Lax; Max-Age=31536000''"
  have gc: "getAccountHash (Some ?c) = Some h"
    unfolding getAccountHash_def h_def option.case
    using hashNickname_shape by (intro match_account_issued) auto
  have run: "login_POST t (Some n) s =
      (Sent (Response 200 (JsonOkBookmarks (map (\<lambda>b. fst (snd b)) (filter (\<lambda>b. fst b = h) (bookmarks s)))) (Some ?c)),
       if h \<in> fst ` set (accounts s) then s else s\<lparr>accounts := accounts s @ [(h, t)]\<rparr>)"
    if "3 \<le> length (trim n)" for t s
  proof -
    from that have "trim n \<noteq> []" by auto
    with that show ?thesis
      by (simp add: login_POST_def truthy_str_def Let_def hashNickname_trim h_def)
  qed
  have slugs: "set (map (\<lambda>b. fst (snd b)) (filter (\<lambda>b. fst b = h) (bookmarks st)))
                 = {s. (h, s) \<in> bookmark_keys st}"
    unfolding bookmark_keys_def by force
  have b: "(let (r1, st1) = login_POST now (Some n) st;
           (r2, st2) = login_POST now' (Some n) st1
       in (\<exists>bs c. r1 = Sent (Response 200 (JsonOkBookmarks bs) (Some c))
             \<and> set bs = {s. (hashNickname n, s) \<in> bookmark_keys st}
             \<and> c = ''nades_account='' @ hashNickname n @ ''; Path=/; HttpOnly; SameSite=Lax; Max-Age=31536000''
             \<and> getAccountHash (Some c) = Some (hashNickname n))
          \<and> accounts st1 = (if hashNickname n \<in> fst ` set (accounts st) then accounts st
                            else accounts st @ [(hashNickname n, now)])
          \<and> (distinct (map fst (accounts st)) \<longrightarrow> distinct (map fst (accounts st1)))
          \<and> bookmarks st1 = bookmarks st \<and> submissions st1 = submissions st \<and> files st1 = files st
          \<and> r2 = r1 \<and> st2 = st1)"
    if v: "3 \<le> length (trim n)"
  proof (cases "h \<in> fst ` set (accounts st)")
    case True
    then show ?thesis
      using gc slugs unfolding run [OF v] by (simp add: h_def [symmetric])
  next
    case False
    then show ?thesis
      using gc slugs unfolding run [OF v] by (simp add: h_def [symmetric])
  qed
  from a b show ?thesis by blast
qed


theorem login_validates_and_is_idempotent_witness:
  "login_POST 300 (Some '' ab '') member_state
     = (Sent (Response 400 (JsonError ''Nickname must be at least 3 characters'') None), member_state)
   \<and> accounts (snd (login_POST 300 (Some ''  Hello  '') empty_state)) = [(hashNickname ''  Hello  '', 300)]
   \<and> login_POST 400 (Some ''  Hello  '') (snd (login_POST 300 (Some ''  Hello  '') empty_state))
     = login_POST 300 (Some ''  Hello  '') empty_state"
proof -
  note t = login_validates_and_is_idempotent
  have s: "length (trim '' ab '') < 3" by code_simp
  have l: "3 \<le> length (trim ''  Hello  '')" by code_simp
  have e: "hashNickname ''  Hello  '' \<notin> fst ` set (accounts empty_state)"
    by (simp add: empty_state_def)
  have "login_POST 300 (Some '' ab '') member_state
     = (Sent (Response 400 (JsonError ''Nickname must be at least 3 characters'') None), member_state)"
    using t [of "Some '' ab ''" "'' ab ''" 300 member_state] s by simp
  moreover have "accounts (snd (login_POST 300 (Some ''  Hello  '') empty_state)) = [(hashNickname ''  Hello  '', 300)]
   \<and> login_POST 400 (Some ''  Hello  '') (snd (login_POST 300 (Some ''  Hello  '') empty_state))
     = login_POST 300 (Some ''  Hello  '') empty_state"
    using t [of "Some ''  Hello  ''" "''  Hello  ''" 300 empty_state 400] l e
    by (auto simp: case_prod_unfold Let_def empty_state_def prod_eq_iff)
  ultimately show ?thesis by blast
qed

subsection \<open>Submission intake\<close>

text \<open>
  The rules in force, spelt out: for a screenshot item, what the handler's loop over the
  three names tests.
\<close>

lemma field_present:
  "has_screenshots f \<Longrightarrow> name \<in> set screenshot_names \<Longrightarrow> \<exists>e. screenshot_field f name = Some e"
  by (auto simp: has_screenshots_def screenshot_names_def screenshot_field_def)

lemma has_carries: "has_screenshots f \<Longrightarrow> carries_screenshots f"
  by (simp add: has_screenshots_def carries_screenshots_def)

lemma missing_in_force:
  "(fails hn f (ScreenshotMissing name) \<and> in_force f (ScreenshotMissing name))
     = (has_screenshots f \<and> name \<in> set screenshot_names \<and> entry_missing (screenshot_field f name))"
proof (cases "has_screenshots f \<and> name \<in> set screenshot_names")
  case True
  with field_present [of f name] obtain e where e: "screenshot_field f name = Some e" by blast
  from True have "carries_screenshots f" by (simp add: has_carries)
  with True e show ?thesis by (cases e) simp_all
next
  case False
  then show ?thesis by auto
qed

lemma too_large_in_force:
  "(fails hn f (ScreenshotTooLarge name) \<and> in_force f (ScreenshotTooLarge name))
     = (has_screenshots f \<and> name \<in> set screenshot_names \<and> entry_too_large (screenshot_field f name))"
proof (cases "screenshot_field f name")
  case None
  then show ?thesis by simp
next
  case (Some e)
  then show ?thesis by (cases e) (auto simp: MAX_FILE_SIZE_def)
qed

lemma violates_simps [simp]:
  "violates hn f NoUrlNoScreenshots = (\<not> truthy_str (f_csnades_url f) \<and> \<not> has_screenshots f)"
  "violates hn f MalformedUrl = (truthy_str (f_csnades_url f) \<and> hn (the (f_csnades_url f)) = None)"
  "violates hn f OffDomainUrl =
     (truthy_str (f_csnades_url f)
      \<and> (\<exists>host. hn (the (f_csnades_url f)) = Some host \<and> host \<notin> {''csnades.gg'', ''www.csnades.gg''}))"
  "violates hn f MapRequired = (has_screenshots f \<and> \<not> truthy_str (f_map f))"
  "violates hn f UnsupportedMap = (truthy_str (f_map f) \<and> the (f_map f) \<notin> set VALID_MAPS)"
  "violates hn f InvalidSide = (truthy_str (f_side f) \<and> the (f_side f) \<noteq> ''t'' \<and> the (f_side f) \<noteq> ''ct'')"
  "violates hn f LineupNameRequired = (has_screenshots f \<and> blank (f_lineup_name f))"
  "violates hn f StandDescRequired = (has_screenshots f \<and> blank (f_stand_desc f))"
  "violates hn f AimDescRequired = (has_screenshots f \<and> blank (f_aim_desc f))"
  "violates hn f ThrowTypeRequired =
     (has_screenshots f
      \<and> (\<not> truthy_str (f_throw_type f) \<or> the (f_throw_type f) \<notin> set VALID_THROW_TYPES))"
  "violates hn f (ScreenshotMissing name) =
     (has_screenshots f \<and> name \<in> set screenshot_names \<and> entry_missing (screenshot_field f name))"
  "violates hn f (ScreenshotTooLarge name) =
     (has_screenshots f \<and> name \<in> set screenshot_names \<and> entry_too_large (screenshot_field f name))"
  unfolding violates_def missing_in_force too_large_in_force by simp_all

lemma check_files_Some:
  "check_files f names = Some msg \<Longrightarrow>
     \<exists>name \<in> set names. (entry_missing (screenshot_field f name) \<and> msg = message (ScreenshotMissing name))
        \<or> (entry_too_large (screenshot_field f name) \<and> msg = message (ScreenshotTooLarge name))"
  by (induction names) (auto split: if_splits)

lemma check_files_None:
  "check_files f names = None \<Longrightarrow> name \<in> set names \<Longrightarrow>
     \<not> entry_missing (screenshot_field f name) \<and> \<not> entry_too_large (screenshot_field f name)"
  by (induction names) (auto split: if_splits)

lemma screenshot_rules_listed:
  "name \<in> set screenshot_names \<Longrightarrow>
     ScreenshotMissing name \<in> set all_rules \<and> ScreenshotTooLarge name \<in> set all_rules"
  by (auto simp: all_rules_def)

lemma first_some_if: "first_some ((if c then Some m else None) # xs) = (if c then Some m else first_some xs)"
  by simp

lemma first_some_last: "first_some [if c then x else None] = (if c then x else None)"
  by (cases x) simp_all

lemma first_some_Some: "first_some xs = Some m \<Longrightarrow> Some m \<in> set xs"
  by (induction xs rule: first_some.induct) auto

lemma first_some_None: "first_some xs = None \<Longrightarrow> x \<in> set xs \<Longrightarrow> x = None"
  by (induction xs rule: first_some.induct) auto

lemma validate_checks:
  "validate hn f =
     first_some
       [if \<not> truthy_str (f_csnades_url f) \<and> \<not> has_screenshots f
        then Some ''Provide a csnades.gg URL or 3 screenshots'' else None,
        if truthy_str (f_csnades_url f) \<and> off_domain (hn (the (f_csnades_url f)))
        then Some ''URL must be from csnades.gg'' else None,
        if truthy_str (f_csnades_url f) \<and> hn (the (f_csnades_url f)) = None
        then Some ''Invalid URL format'' else None,
        if has_screenshots f \<and> \<not> truthy_str (f_map f)
        then Some ''Map name is required with screenshots'' else None,
        if truthy_str (f_map f) \<and> the (f_map f) \<notin> set VALID_MAPS
        then Some ''Invalid map name'' else None,
        if truthy_str (f_side f) \<and> the (f_side f) \<notin> set [''t'', ''ct'']
        then Some ''Invalid side value'' else None,
        if has_screenshots f \<and> blank (f_lineup_name f)
        then Some ''Lineup name is required with screenshots'' else None,
        if has_screenshots f \<and> blank (f_stand_desc f)
        then Some ''Stand description is required with screenshots'' else None,
        if has_screenshots f \<and> blank (f_aim_desc f)
        then Some ''Aim description is required with screenshots'' else None,
        if has_screenshots f
           \<and> (\<not> truthy_str (f_throw_type f) \<or> the (f_throw_type f) \<notin> set VALID_THROW_TYPES)
        then Some ''Valid throw type is required with screenshots'' else None,
        if has_screenshots f then check_files f screenshot_names else None]"
  unfolding validate_def Let_def first_some_if first_some_last ..

lemma if_Some_eq: "((if c then Some m else None) = Some msg) = (c \<and> m = msg)"
  by simp

lemma if_None_eq: "((if c then Some m else None) = None) = (\<not> c)"
  by simp

lemma off_domain_iff: "off_domain h = (\<exists>host. h = Some host \<and> host \<notin> {''csnades.gg'', ''www.csnades.gg''})"
  by (cases h) auto

lemma validate_Some:
  assumes "validate hn f = Some msg"
  shows "\<exists>r \<in> set all_rules. violates hn f r \<and> msg = message r"
proof -
  have plain: "\<exists>r \<in> set all_rules. violates hn f r \<and> msg = message r"
    if "r \<in> set all_rules" "violates hn f r" "msg = message r" for r
    using that by blast
  have files: "\<exists>r \<in> set all_rules. violates hn f r \<and> msg = message r"
    if "has_screenshots f" "check_files f screenshot_names = Some msg"
  proof -
    from check_files_Some [OF that(2)] obtain name where n: "name \<in> set screenshot_names"
      and c: "(entry_missing (screenshot_field f name) \<and> msg = message (ScreenshotMissing name))
        \<or> (entry_too_large (screenshot_field f name) \<and> msg = message (ScreenshotTooLarge name))"
      by blast
    from c show ?thesis
    proof
      assume "entry_missing (screenshot_field f name) \<and> msg = message (ScreenshotMissing name)"
      with n that(1) screenshot_rules_listed [OF n] show ?thesis
        by (intro plain [of "ScreenshotMissing name"]) simp_all
    next
      assume "entry_too_large (screenshot_field f name) \<and> msg = message (ScreenshotTooLarge name)"
      with n that(1) screenshot_rules_listed [OF n] show ?thesis
        by (intro plain [of "ScreenshotTooLarge name"]) simp_all
    qed
  qed
  have l: "NoUrlNoScreenshots \<in> set all_rules" "MalformedUrl \<in> set all_rules"
    "OffDomainUrl \<in> set all_rules" "MapRequired \<in> set all_rules" "UnsupportedMap \<in> set all_rules"
    "InvalidSide \<in> set all_rules" "LineupNameRequired \<in> set all_rules"
    "StandDescRequired \<in> set all_rules" "AimDescRequired \<in> set all_rules"
    "ThrowTypeRequired \<in> set all_rules"
    by (simp_all add: all_rules_def)
  from first_some_Some [OF assms [unfolded validate_checks]]
  have "violates hn f NoUrlNoScreenshots \<and> msg = message NoUrlNoScreenshots
      \<or> violates hn f MalformedUrl \<and> msg = message MalformedUrl
      \<or> violates hn f OffDomainUrl \<and> msg = message OffDomainUrl
      \<or> violates hn f MapRequired \<and> msg = message MapRequired
      \<or> violates hn f UnsupportedMap \<and> msg = message UnsupportedMap
      \<or> violates hn f InvalidSide \<and> msg = message InvalidSide
      \<or> violates hn f LineupNameRequired \<and> msg = message LineupNameRequired
      \<or> violates hn f StandDescRequired \<and> msg = message StandDescRequired
      \<or> violates hn f AimDescRequired \<and> msg = message AimDescRequired
      \<or> violates hn f ThrowTypeRequired \<and> msg = message ThrowTypeRequired
      \<or> has_screenshots f \<and> check_files f screenshot_names = Some msg"
    unfolding list.set insert_iff empty_iff if_Some_eq violates_simps message.simps off_domain_iff
    by (elim disjE) (auto split: if_splits)
  then show ?thesis
    using l files by (elim disjE) (blast intro: plain)+
qed

lemma first_some_None_iff: "first_some xs = None \<longleftrightarrow> list_all (\<lambda>x. x = None) xs"
  by (induction xs rule: first_some.induct) auto

lemma validate_None:
  assumes "validate hn f = None"
  shows "\<not> violates hn f r"
proof -
  note n = assms [unfolded validate_checks first_some_None_iff list.pred_inject if_None_eq simp_thms]
  from n have k: "check_files f screenshot_names = None" if "has_screenshots f"
    using that by (simp split: if_splits)
  show ?thesis
  proof (cases r)
    case OffDomainUrl
    with n show ?thesis by (simp add: off_domain_iff)
  next
    case (ScreenshotMissing name)
    with k check_files_None [of f screenshot_names name] show ?thesis by auto
  next
    case (ScreenshotTooLarge name)
    with k check_files_None [of f screenshot_names name] show ?thesis by auto
  qed (use n in simp_all)
qed

lemma validate_iff: "validate hn f = None \<longleftrightarrow> (\<forall>r. \<not> violates hn f r)"
proof
  assume "validate hn f = None"
  then show "\<forall>r. \<not> violates hn f r" by (simp add: validate_None)
next
  assume a: "\<forall>r. \<not> violates hn f r"
  show "validate hn f = None"
  proof (cases "validate hn f")
    case (Some msg)
    from validate_Some [OF this] a show ?thesis by blast
  qed simp
qed

lemma messages_distinct: "distinct (map message all_rules)"
  by (simp add: all_rules_def screenshot_names_def)


lemma foldr_max_ge: "k \<in> set xs \<Longrightarrow> k \<le> foldr max xs (s :: int)"
  by (induction xs) auto

lemma next_rowid_fresh: "next_rowid st \<notin> fst ` set (submissions st)"
proof
  assume "next_rowid st \<in> fst ` set (submissions st)"
  then have "next_rowid st \<in> set (map fst (submissions st))" by simp
  from foldr_max_ge [OF this, of "sequence st"] show False
    by (simp add: next_rowid_def)
qed

lemma stagingDir_eq: "stagingDir cwd n = cwd @ [''staging'', js_String (JNum n)]"
proof -
  have s: "segments (js_String (JNum n)) = [js_String (JNum n)]"
    using js_String_JNum_plain by (intro segments_plain) blast
  have w: "walk p (js_String (JNum n)) = p @ [js_String (JNum n)]" for p
    using js_String_JNum_plain [of n] unfolding walk_def by auto
  show ?thesis
    unfolding stagingDir_def join_def
    by (simp add: s w del: js_String.simps) (simp add: walk_def)
qed

text \<open>
  With the admin application running in a directory of the site's directory, the staging
  directory that a review request removes is the one that the intake handler fills.
\<close>

lemma staging_dirs_agree: "admin_stagingDir (cwd @ [d]) (JNum n) = stagingDir cwd n"
  by (simp add: admin_stagingDir_JNum stagingDir_eq del: js_String.simps)

lemma join_jpg:
  "join dir [''position.jpg''] = dir @ [''position.jpg'']"
  "join dir [''aim.jpg''] = dir @ [''aim.jpg'']"
  "join dir [''result.jpg''] = dir @ [''result.jpg'']"
  by (simp_all add: join_def walk_def)

lemma mkdir_p_free:
  assumes "list_all (\<lambda>q. case fs q of Some (Regular c) \<Rightarrow> False | _ \<Rightarrow> True) (prefixes dir)"
  shows "mkdir_p fs dir = Some (\<lambda>q. if prefix q dir \<and> fs q = None then Some Directory else fs q)"
    and "(if prefix dir dir \<and> fs dir = None then Some Directory else fs dir) = Some Directory"
proof -
  from assms have "\<not> list_ex (\<lambda>q. case fs q of Some (Regular c) \<Rightarrow> True | _ \<Rightarrow> False) (prefixes dir)"
    by (auto simp: list_all_iff list_ex_iff split: option.splits node.splits)
  then show "mkdir_p fs dir = Some (\<lambda>q. if prefix q dir \<and> fs q = None then Some Directory else fs q)"
    by (simp add: mkdir_p_def)
  from assms have "case fs dir of Some (Regular c) \<Rightarrow> False | _ \<Rightarrow> True"
    by (simp add: list_all_iff)
  then show "(if prefix dir dir \<and> fs dir = None then Some Directory else fs dir) = Some Directory"
    by (auto split: option.splits node.splits)
qed

lemma write_file_in_dir:
  assumes "fs dir = Some Directory" and "fs (dir @ [name]) \<noteq> Some Directory"
  shows "write_file fs (dir @ [name]) content = Some (fs(dir @ [name] \<mapsto> Regular content))"
  using assms by (simp add: write_file_def)


lemma stage_three:
  assumes "f_position f = Some (FileField n1 c1)" "f_aim f = Some (FileField n2 c2)"
    "f_result f = Some (FileField n3 c3)" and "0 < n1" "0 < n2" "0 < n3"
    and "fs1 dir = Some Directory"
    and "fs1 (dir @ [''position.jpg'']) \<noteq> Some Directory"
    and "fs1 (dir @ [''aim.jpg'']) \<noteq> Some Directory"
    and "fs1 (dir @ [''result.jpg'']) \<noteq> Some Directory"
  shows "write_screenshots dir f screenshot_names fs1 =
           (None, fs1(dir @ [''position.jpg''] \<mapsto> Regular c1,
                      dir @ [''aim.jpg''] \<mapsto> Regular c2,
                      dir @ [''result.jpg''] \<mapsto> Regular c3))"
  using assms by (simp add: screenshot_names_def screenshot_field_def join_jpg write_file_def)

lemma accepted_run:
  assumes "validate hn f = None"
  shows "submit_POST hn cwd now f st =
     (let st1 = snd (insert_submission now f st); dir = stagingDir cwd (next_rowid st)
      in if has_screenshots f
         then (case mkdir_p (files st1) dir of
                 None \<Rightarrow> (Thrown FilesystemError, st1)
               | Some fs1 \<Rightarrow>
                   (case write_screenshots dir f screenshot_names fs1 of
                      (Some e, fs2) \<Rightarrow> (Thrown e, st1\<lparr>files := fs2\<rparr>)
                    | (None, fs2) \<Rightarrow>
                        (Sent (Response 200 (JsonOkId (next_rowid st)) None), st1\<lparr>files := fs2\<rparr>)))
         else (Sent (Response 200 (JsonOkId (next_rowid st)) None), st1))"
  using assms by (simp add: submit_POST_def insert_submission_def Let_def)

text \<open>
  C4. For a submission request that violates no validation rule, the insert runs first
  on the state as it was and yields the identifier, which no row had before; the only
  change to \<open>submissions\<close>, whatever happens afterwards, is that one new row, with status
  \<open>pending\<close>, the request's \<open>csnades_url\<close> and no review timestamp. Without the full set
  of screenshot fields the request carried a URL, the response is 200 with the new
  identifier, and the filesystem is untouched. With three screenshot files, and nothing
  in the way of staging, the response is 200 with the new identifier, the staging
  directory is the entry \<open>String(id)\<close> of \<open>staging\<close> in the working directory, and it holds
  \<open>position.jpg\<close>, \<open>aim.jpg\<close> and \<open>result.jpg\<close> with the contents of the three files; the
  files are written onto the filesystem of the state that the insert returned.
\<close>

theorem submit_creates_pending_row_then_stages:
  assumes "\<forall>r. \<not> violates hn f r"
  shows "\<exists>row st1.
      insert_submission now f st = (next_rowid st, st1)
    \<and> next_rowid st \<notin> fst ` set (submissions st)
    \<and> submissions st1 = submissions st @ [(next_rowid st, row)]
    \<and> status row = Pending \<and> csnades_url row = f_csnades_url f \<and> reviewed_at row = None
    \<and> files st1 = files st
    \<and> submissions (snd (submit_POST hn cwd now f st)) = submissions st1
    \<and> (\<not> has_screenshots f \<longrightarrow>
          truthy_str (f_csnades_url f)
        \<and> submit_POST hn cwd now f st = (Sent (Response 200 (JsonOkId (next_rowid st)) None), st1))
    \<and> (full_screenshot_set f \<and> staging_free (files st) (stagingDir cwd (next_rowid st)) \<longrightarrow>
          fst (submit_POST hn cwd now f st) = Sent (Response 200 (JsonOkId (next_rowid st)) None)
        \<and> stagingDir cwd (next_rowid st) = cwd @ [''staging'', js_String (JNum (next_rowid st))]
        \<and> files (snd (submit_POST hn cwd now f st)) (stagingDir cwd (next_rowid st)) = Some Directory
        \<and> files (snd (submit_POST hn cwd now f st)) (stagingDir cwd (next_rowid st) @ [''position.jpg''])
            = Some (Regular (content_of (f_position f)))
        \<and> files (snd (submit_POST hn cwd now f st)) (stagingDir cwd (next_rowid st) @ [''aim.jpg''])
            = Some (Regular (content_of (f_aim f)))
        \<and> files (snd (submit_POST hn cwd now f st)) (stagingDir cwd (next_rowid st) @ [''result.jpg''])
            = Some (Regular (content_of (f_result f)))
        \<and> (\<exists>fs1. mkdir_p (files st1) (stagingDir cwd (next_rowid st)) = Some fs1
              \<and> write_screenshots (stagingDir cwd (next_rowid st)) f screenshot_names fs1
                  = (None, files (snd (submit_POST hn cwd now f st)))))"
proof -
  from assms have v: "validate hn f = None" by (simp add: validate_iff)
  define st1 where "st1 = snd (insert_submission now f st)"
  define dir where "dir = stagingDir cwd (next_rowid st)"
  have ins: "insert_submission now f st = (next_rowid st, st1)"
    by (simp add: st1_def insert_submission_def)
  have rows: "submissions st1 = submissions st @ [(next_rowid st, new_submission now f)]"
    and fs: "files st1 = files st"
    by (simp_all add: st1_def insert_submission_def)
  have row: "status (new_submission now f) = Pending"
    "csnades_url (new_submission now f) = f_csnades_url f"
    "reviewed_at (new_submission now f) = None"
    by (simp_all add: new_submission_def)
  note run = accepted_run [OF v, of cwd now st, folded st1_def dir_def, unfolded Let_def]
  have kept: "submissions (snd (submit_POST hn cwd now f st)) = submissions st1"
    unfolding run by (auto split: option.splits prod.splits)
  have url_only: "truthy_str (f_csnades_url f)
        \<and> submit_POST hn cwd now f st = (Sent (Response 200 (JsonOkId (next_rowid st)) None), st1)"
    if "\<not> has_screenshots f"
  proof -
    from assms have "\<not> violates hn f NoUrlNoScreenshots" by blast
    with that show ?thesis unfolding run by simp
  qed
  have staged: "fst (submit_POST hn cwd now f st) = Sent (Response 200 (JsonOkId (next_rowid st)) None)
        \<and> files (snd (submit_POST hn cwd now f st)) dir = Some Directory
        \<and> files (snd (submit_POST hn cwd now f st)) (dir @ [''position.jpg''])
            = Some (Regular (content_of (f_position f)))
        \<and> files (snd (submit_POST hn cwd now f st)) (dir @ [''aim.jpg''])
            = Some (Regular (content_of (f_aim f)))
        \<and> files (snd (submit_POST hn cwd now f st)) (dir @ [''result.jpg''])
            = Some (Regular (content_of (f_result f)))
        \<and> (\<exists>fs1. mkdir_p (files st1) dir = Some fs1
              \<and> write_screenshots dir f screenshot_names fs1
                  = (None, files (snd (submit_POST hn cwd now f st))))"
    if full: "full_screenshot_set f" and free: "staging_free (files st) dir"
  proof -
    from full obtain n1 c1 n2 c2 n3 c3 where
      e: "f_position f = Some (FileField n1 c1)" "f_aim f = Some (FileField n2 c2)"
         "f_result f = Some (FileField n3 c3)"
      unfolding full_screenshot_set_def
      by (metis is_file.elims(2))
    then have has: "has_screenshots f" by (simp add: has_screenshots_def)
    from assms have "\<not> violates hn f (ScreenshotMissing ''position'')"
      "\<not> violates hn f (ScreenshotMissing ''aim'')" "\<not> violates hn f (ScreenshotMissing ''result'')"
      by blast+
    with has e have pos: "0 < n1" "0 < n2" "0 < n3"
      by (simp_all add: screenshot_names_def screenshot_field_def)
    define fs1 where "fs1 = (\<lambda>q. if prefix q dir \<and> files st q = None then Some Directory else files st q)"
    from free have a: "list_all (\<lambda>q. case files st q of Some (Regular c) \<Rightarrow> False | _ \<Rightarrow> True) (prefixes dir)"
      and b: "files st (dir @ [''position.jpg'']) \<noteq> Some Directory"
        "files st (dir @ [''aim.jpg'']) \<noteq> Some Directory"
        "files st (dir @ [''result.jpg'']) \<noteq> Some Directory"
      by (simp_all add: staging_free_def screenshot_names_def)
    have mk: "mkdir_p (files st1) dir = Some fs1"
      unfolding fs fs1_def by (rule mkdir_p_free(1) [OF a])
    have d: "fs1 dir = Some Directory"
      unfolding fs1_def by (rule mkdir_p_free(2) [OF a])
    have b1: "fs1 (dir @ [''position.jpg'']) \<noteq> Some Directory"
      "fs1 (dir @ [''aim.jpg'']) \<noteq> Some Directory"
      "fs1 (dir @ [''result.jpg'']) \<noteq> Some Directory"
      using b by (simp_all add: fs1_def)
    note w = stage_three [OF e pos d b1]
    have out: "submit_POST hn cwd now f st =
      (Sent (Response 200 (JsonOkId (next_rowid st)) None),
       st1\<lparr>files := fs1(dir @ [''position.jpg''] \<mapsto> Regular c1,
                          dir @ [''aim.jpg''] \<mapsto> Regular c2,
                          dir @ [''result.jpg''] \<mapsto> Regular c3)\<rparr>)"
      unfolding run using has by (simp add: mk w)
    show ?thesis
      unfolding out using d e mk w by simp
  qed
  from ins next_rowid_fresh [of st] rows row fs kept url_only staged stagingDir_eq [of cwd "next_rowid st"]
  show ?thesis
    unfolding dir_def by blast
qed


lemma url_form_valid: "validate https_host (url_form ''https://csnades.gg/lineups/42'') = None"
  by (simp add: validate_def url_form_def https_host_def truthy_str_def has_screenshots_def)

lemma screenshot_form_fields:
  "\<not> blank (Some ''Window smoke'')" "\<not> blank (Some ''Corner of T spawn'')"
  "\<not> blank (Some ''Tip of the antenna'')"
  by (simp_all add: blank_def truthy_str_def trim_def is_space_def)

lemma screenshot_form_valid: "validate https_host (screenshot_form 3) = None"
  by (simp add: validate_def screenshot_form_def screenshot_form_fields truthy_str_def
      has_screenshots_def VALID_MAPS_def VALID_THROW_TYPES_def screenshot_names_def
      screenshot_field_def MAX_FILE_SIZE_def)


lemma first_rowid: "next_rowid empty_state = 1"
  by (simp add: next_rowid_def empty_state_def)

lemma first_stagingDir: "stagingDir site_cwd 1 = [''srv'', ''cs-nades'', ''staging'', ''1'']"
  by code_simp

theorem submit_creates_pending_row_then_stages_witness:
  "(\<forall>r. \<not> violates https_host (url_form ''https://csnades.gg/lineups/42'') r)
   \<and> submit_POST https_host site_cwd 300 (url_form ''https://csnades.gg/lineups/42'') empty_state
       = (Sent (Response 200 (JsonOkId 1) None),
          snd (insert_submission 300 (url_form ''https://csnades.gg/lineups/42'') empty_state))
   \<and> (\<forall>r. \<not> violates https_host (screenshot_form 3) r)
   \<and> full_screenshot_set (screenshot_form 3)
   \<and> staging_free (files empty_state) (stagingDir site_cwd 1)
   \<and> fst (submit_POST https_host site_cwd 300 (screenshot_form 3) empty_state)
       = Sent (Response 200 (JsonOkId 1) None)
   \<and> files (snd (submit_POST https_host site_cwd 300 (screenshot_form 3) empty_state))
        [''srv'', ''cs-nades'', ''staging'', ''1''] = Some Directory
   \<and> files (snd (submit_POST https_host site_cwd 300 (screenshot_form 3) empty_state))
        [''srv'', ''cs-nades'', ''staging'', ''1'', ''position.jpg''] = Some (Regular ''position bytes'')
   \<and> files (snd (submit_POST https_host site_cwd 300 (screenshot_form 3) empty_state))
        [''srv'', ''cs-nades'', ''staging'', ''1'', ''aim.jpg''] = Some (Regular ''aim bytes'')
   \<and> files (snd (submit_POST https_host site_cwd 300 (screenshot_form 3) empty_state))
        [''srv'', ''cs-nades'', ''staging'', ''1'', ''result.jpg''] = Some (Regular ''result bytes'')"
proof -
  have u: "\<forall>r. \<not> violates https_host (url_form ''https://csnades.gg/lineups/42'') r"
    using url_form_valid by (simp add: validate_iff)
  have s: "\<forall>r. \<not> violates https_host (screenshot_form 3) r"
    using screenshot_form_valid by (simp add: validate_iff)
  have n: "\<not> has_screenshots (url_form ''https://csnades.gg/lineups/42'')"
    by (simp add: has_screenshots_def url_form_def)
  have f: "full_screenshot_set (screenshot_form 3)"
    by (simp add: full_screenshot_set_def screenshot_form_def)
  have e: "staging_free (files empty_state) (stagingDir site_cwd 1)"
    by (simp add: staging_free_def empty_state_def list_all_iff)
  have c: "content_of (f_position (screenshot_form 3)) = ''position bytes''"
    "content_of (f_aim (screenshot_form 3)) = ''aim bytes''"
    "content_of (f_result (screenshot_form 3)) = ''result bytes''"
    by (simp_all add: screenshot_form_def)
  from submit_creates_pending_row_then_stages [OF u, of 300 empty_state site_cwd] n
  have a: "submit_POST https_host site_cwd 300 (url_form ''https://csnades.gg/lineups/42'') empty_state
       = (Sent (Response 200 (JsonOkId 1) None),
          snd (insert_submission 300 (url_form ''https://csnades.gg/lineups/42'') empty_state))"
    by (auto simp: first_rowid)
  from submit_creates_pending_row_then_stages [OF s, of 300 empty_state site_cwd] f e
  have b: "fst (submit_POST https_host site_cwd 300 (screenshot_form 3) empty_state)
       = Sent (Response 200 (JsonOkId 1) None)
   \<and> files (snd (submit_POST https_host site_cwd 300 (screenshot_form 3) empty_state))
        [''srv'', ''cs-nades'', ''staging'', ''1''] = Some Directory
   \<and> files (snd (submit_POST https_host site_cwd 300 (screenshot_form 3) empty_state))
        [''srv'', ''cs-nades'', ''staging'', ''1'', ''position.jpg''] = Some (Regular ''position bytes'')
   \<and> files (snd (submit_POST https_host site_cwd 300 (screenshot_form 3) empty_state))
        [''srv'', ''cs-nades'', ''staging'', ''1'', ''aim.jpg''] = Some (Regular ''aim bytes'')
   \<and> files (snd (submit_POST https_host site_cwd 300 (screenshot_form 3) empty_state))
        [''srv'', ''cs-nades'', ''staging'', ''1'', ''result.jpg''] = Some (Regular ''result bytes'')"
    unfolding first_rowid first_stagingDir c by auto
  from u s f e a b show ?thesis by blast
qed


text \<open>
  C5, as the claim states it, fails: a request with a link to the site and, beside it, a
  single screenshot item of 10 MiB and one byte is answered 200, and a row is inserted.
  The handler looks at the screenshot items only when all three fields are there.
\<close>

theorem submit_accepts_oversized_item_beside_url:
  "fails https_host oversized_beside_url (ScreenshotTooLarge ''position'')
   \<and> submit_POST https_host site_cwd 300 oversized_beside_url empty_state
     = (Sent (Response 200 (JsonOkId 1) None),
        empty_state\<lparr>submissions := [(1, url_submission 300)], sequence := 1\<rparr>)"
  by (simp add: oversized_beside_url_def url_form_def screenshot_names_def screenshot_field_def
      submit_POST_def validate_def https_host_def truthy_str_def has_screenshots_def
      insert_submission_def new_submission_def next_rowid_def empty_state_def url_submission_def)

text \<open>
  A request with all three fields in which \<open>position\<close> holds a non-empty text value in
  place of a file misses the item \<open>position\<close>, and yet passes the checks of the handler,
  which reads the field as a file: the response is 200, the row says that the submission
  has screenshots, and the staging directory holds \<open>aim.jpg\<close> and \<open>result.jpg\<close> and no
  \<open>position.jpg\<close>.
\<close>

lemma submit_accepts_text_in_place_of_file:
  "fails https_host text_for_position (ScreenshotMissing ''position'')
   \<and> fst (submit_POST https_host site_cwd 300 text_for_position empty_state)
     = Sent (Response 200 (JsonOkId 1) None)
   \<and> map (\<lambda>(k, r). (k, map_option hasScreenshots (data r)))
        (submissions (snd (submit_POST https_host site_cwd 300 text_for_position empty_state)))
     = [(1, Some True)]
   \<and> files (snd (submit_POST https_host site_cwd 300 text_for_position empty_state))
        [''srv'', ''cs-nades'', ''staging'', ''1'', ''position.jpg''] = None
   \<and> files (snd (submit_POST https_host site_cwd 300 text_for_position empty_state))
        [''srv'', ''cs-nades'', ''staging'', ''1'', ''aim.jpg''] = Some (Regular ''aim bytes'')
   \<and> files (snd (submit_POST https_host site_cwd 300 text_for_position empty_state))
        [''srv'', ''cs-nades'', ''staging'', ''1'', ''result.jpg''] = Some (Regular ''result bytes'')"
proof -
  have f: "fails https_host text_for_position (ScreenshotMissing ''position'')"
    by (simp add: text_for_position_def screenshot_form_def screenshot_names_def
        screenshot_field_def carries_screenshots_def)
  have v: "validate https_host text_for_position = None"
    by (simp add: validate_def text_for_position_def screenshot_form_def screenshot_form_fields
        truthy_str_def has_screenshots_def VALID_MAPS_def VALID_THROW_TYPES_def
        screenshot_names_def screenshot_field_def MAX_FILE_SIZE_def)
  have h: "has_screenshots text_for_position"
    by (simp add: has_screenshots_def text_for_position_def screenshot_form_def)
  define fs1 where
    "fs1 = (\<lambda>q. if prefix q [''srv'', ''cs-nades'', ''staging'', ''1''] \<and> files empty_state q = None
                 then Some Directory else files empty_state q)"
  have a: "list_all (\<lambda>q. case files empty_state q of Some (Regular c) \<Rightarrow> False | _ \<Rightarrow> True)
             (prefixes [''srv'', ''cs-nades'', ''staging'', ''1''])"
    by (simp add: list_all_iff empty_state_def)
  have m: "mkdir_p (files empty_state) [''srv'', ''cs-nades'', ''staging'', ''1''] = Some fs1"
    unfolding fs1_def by (rule mkdir_p_free(1) [OF a])
  have d: "fs1 [''srv'', ''cs-nades'', ''staging'', ''1''] = Some Directory"
    "fs1 [''srv'', ''cs-nades'', ''staging'', ''1'', ''position.jpg''] = None"
    "fs1 [''srv'', ''cs-nades'', ''staging'', ''1'', ''aim.jpg''] = None"
    "fs1 [''srv'', ''cs-nades'', ''staging'', ''1'', ''result.jpg''] = None"
    by (simp_all add: fs1_def empty_state_def)
  have w: "write_screenshots [''srv'', ''cs-nades'', ''staging'', ''1''] text_for_position screenshot_names fs1
      = (None, fs1([''srv'', ''cs-nades'', ''staging'', ''1'', ''aim.jpg''] \<mapsto> Regular ''aim bytes'',
                   [''srv'', ''cs-nades'', ''staging'', ''1'', ''result.jpg''] \<mapsto> Regular ''result bytes''))"
    by (simp add: screenshot_names_def screenshot_field_def text_for_position_def screenshot_form_def
        join_def walk_def write_file_def d)
  have i: "files (snd (insert_submission 300 text_for_position empty_state)) = files empty_state"
    "submissions (snd (insert_submission 300 text_for_position empty_state))
       = [(1, new_submission 300 text_for_position)]"
    by (simp_all add: insert_submission_def first_rowid) (simp add: empty_state_def)
  have run: "submit_POST https_host site_cwd 300 text_for_position empty_state
      = (Sent (Response 200 (JsonOkId 1) None),
         (snd (insert_submission 300 text_for_position empty_state))
           \<lparr>files := fs1([''srv'', ''cs-nades'', ''staging'', ''1'', ''aim.jpg''] \<mapsto> Regular ''aim bytes'',
                         [''srv'', ''cs-nades'', ''staging'', ''1'', ''result.jpg''] \<mapsto> Regular ''result bytes'')\<rparr>)"
    unfolding accepted_run [OF v] Let_def first_rowid first_stagingDir
    using h by (simp add: i m w)
  show ?thesis
    unfolding run using f h by (simp add: i d new_submission_def)
qed

text \<open>
  C5, amended. A submission request that fails a validation rule in force (no URL and
  not all three screenshot fields; a malformed URL; an off-domain URL; all three
  screenshot fields without a map name; an unsupported map name; an invalid side; all
  three screenshot fields with a blank descriptive field or an unsupported throw type;
  and, in a request with all three screenshot fields, a field that holds an empty text
  value, an empty file or a file larger than 10 MiB) is answered 400 with the message of
  a rule in force that it fails, and the state is left as it was; the messages of the
  rules are pairwise distinct.
\<close>

theorem submit_rejects_invalid_without_mutation:
  assumes "fails hn f r" and "in_force f r"
  shows "(\<exists>r' \<in> set all_rules. fails hn f r' \<and> in_force f r'
           \<and> submit_POST hn cwd now f st = (Sent (Response 400 (JsonError (message r')) None), st))
         \<and> distinct (map message all_rules)"
proof -
  from assms have "violates hn f r"
    by (simp only: violates_def)
  with validate_None [of hn f r] obtain msg where m: "validate hn f = Some msg"
    by (cases "validate hn f") auto
  from validate_Some [OF m] obtain r' where "r' \<in> set all_rules" "violates hn f r'" "msg = message r'"
    by blast
  moreover from m have "submit_POST hn cwd now f st = (Sent (Response 400 (JsonError msg) None), st)"
    by (simp add: submit_POST_def)
  ultimately show ?thesis
    using messages_distinct unfolding violates_def by blast
qed

lemma off_domain_failure:
  "fails https_host (url_form ''https://example.com/lineups/42'') OffDomainUrl"
  "in_force (url_form ''https://example.com/lineups/42'') OffDomainUrl"
  by (simp_all add: url_form_def https_host_def truthy_str_def)

lemma oversize_failure:
  "fails https_host (screenshot_form 10485761) (ScreenshotTooLarge ''position'')"
  "in_force (screenshot_form 10485761) (ScreenshotTooLarge ''position'')"
  by (simp_all add: screenshot_form_def has_screenshots_def screenshot_names_def screenshot_field_def)

theorem submit_rejects_invalid_without_mutation_witness:
  "fails https_host (url_form ''https://example.com/lineups/42'') OffDomainUrl
   \<and> in_force (url_form ''https://example.com/lineups/42'') OffDomainUrl
   \<and> (\<exists>r' \<in> set all_rules. fails https_host (url_form ''https://example.com/lineups/42'') r'
         \<and> submit_POST https_host site_cwd 300 (url_form ''https://example.com/lineups/42'') staged_state
             = (Sent (Response 400 (JsonError (message r')) None), staged_state))
   \<and> fails https_host (screenshot_form 10485761) (ScreenshotTooLarge ''position'')
   \<and> in_force (screenshot_form 10485761) (ScreenshotTooLarge ''position'')
   \<and> (\<exists>r' \<in> set all_rules. fails https_host (screenshot_form 10485761) r'
         \<and> submit_POST https_host site_cwd 300 (screenshot_form 10485761) staged_state
             = (Sent (Response 400 (JsonError (message r')) None), staged_state))"
  using submit_rejects_invalid_without_mutation [OF off_domain_failure, of site_cwd 300 staged_state]
    submit_rejects_invalid_without_mutation [OF oversize_failure, of site_cwd 300 staged_state]
    off_domain_failure oversize_failure
  by blast


end
